theory Spec2Isabelle
  imports Main "HOL-Library.Word"
begin

unbundle bit_operations_syntax

section \<open>The kernel memory manager of kernel/memory.c\<close>

text \<open>
  A shallow embedding of \<^verbatim>\<open>kernel/memory.c\<close>: the two physical pools, the virtual
  pools, the page-table driver, the page allocator and the arena heap.
  Addresses and sizes are 32-bit words, pointers are 32-bit words with NULL = 0,
  and every ASSERT or PANIC of the source is a branch that ends in a \<open>fatal\<close> value.
\<close>

type_synonym u32 = "32 word"
type_synonym u16 = "16 word"

subsection \<open>Fatal endings and sequencing\<close>

text \<open>
  \<open>AssertFail\<close>: an ASSERT of the source failed (the kernel spins in panic).
  \<open>Panic\<close>: a PANIC was reached.
  \<open>Undefined\<close>: the source reads or writes outside an array (a bitmap, a descriptor
  array, an empty list) or through a null descriptor pointer.
  \<open>Blocked\<close>: the only thread of the model waits for a mutex that is held.
\<close>

datatype fatal = AssertFail | Panic | Undefined | Blocked

type_synonym 'a res = "fatal + 'a"

definition bindE :: "'a res \<Rightarrow> ('a \<Rightarrow> 'b res) \<Rightarrow> 'b res" where
  "bindE m f = (case m of Inl e \<Rightarrow> Inl e | Inr x \<Rightarrow> f x)"

definition ASSERT :: "bool \<Rightarrow> unit res" where
  "ASSERT c = (if c then Inr () else Inl AssertFail)"

subsection \<open>Constants of the headers\<close>

text \<open>
  Modelled from the spec: the macros of \<^verbatim>\<open>memory.h\<close> and \<^verbatim>\<open>global.h\<close> are not among the
  sources. The page size is 4096, there are seven size classes, every entry carries
  present, read-write and user, \<^verbatim>\<open>struct arena\<close> (a pointer, a bool, which is an int
  in this kernel, and a \<^verbatim>\<open>uint32_t\<close> on a 32-bit target) takes 12 bytes, and
  \<^verbatim>\<open>struct mem_block_desc\<close> (two \<^verbatim>\<open>uint32_t\<close> and a list of two elements with two
  pointers each) takes 24 bytes.
\<close>

definition PG_SIZE :: u32 where "PG_SIZE = 4096"
definition DESC_CNT :: nat where "DESC_CNT = 7"
definition PG_P_1 :: u32 where "PG_P_1 = 1"
definition PG_RW_W :: u32 where "PG_RW_W = 2"
definition PG_US_U :: u32 where "PG_US_U = 4"
definition sizeof_arena :: u32 where "sizeof_arena = 12"
definition sizeof_mem_block_desc :: u32 where "sizeof_mem_block_desc = 24"
definition MEM_BITMAP_BASE :: u32 where "MEM_BITMAP_BASE = 0xc009a000"
definition K_HEAP_START :: u32 where "K_HEAP_START = 0xc0100000"

text \<open>Modelled from the spec: \<^verbatim>\<open>DIV_ROUND_UP\<close> of \<^verbatim>\<open>global.h\<close>, the rounded-up quotient,
  computed on 32-bit unsigned values.\<close>

definition DIV_ROUND_UP :: "u32 \<Rightarrow> u32 \<Rightarrow> u32" where
  "DIV_ROUND_UP x step = (x + step - 1) div step"

datatype pool_flags = PF_KERNEL | PF_USER

subsection \<open>The bitmap primitive\<close>

text \<open>
  Modelled from the spec: \<^verbatim>\<open>bitmap.c\<close> is not among the sources. A bitmap is a bit
  array of \<open>8 * btmp_bytes_len\<close> bits stored at \<open>bits_addr\<close>; \<open>bits\<close> is its content,
  \<open>True\<close> for an allocated slot. \<open>bitmap_scan\<close> returns the first index of a run of
  \<open>cnt\<close> clear bits (\<open>None\<close> for the source's -1), \<open>bitmap_set\<close> writes one bit.
  A write beyond the array leaves the model.
\<close>

record bitmap =
  btmp_bytes_len :: u32
  bits_addr :: u32
  bits :: "bool list"

definition bitmap_init :: "bitmap \<Rightarrow> bitmap" where
  "bitmap_init btmp = btmp\<lparr>bits := replicate (8 * unat (btmp_bytes_len btmp)) False\<rparr>"

definition run_free :: "bool list \<Rightarrow> nat \<Rightarrow> nat \<Rightarrow> bool" where
  "run_free bs i cnt = (i + cnt \<le> length bs \<and> list_all (\<lambda>b. \<not> b) (take cnt (drop i bs)))"

definition bitmap_scan :: "bitmap \<Rightarrow> nat \<Rightarrow> nat option" where
  "bitmap_scan btmp cnt = find (\<lambda>i. run_free (bits btmp) i cnt) [0 ..< length (bits btmp)]"

definition bitmap_set :: "bitmap \<Rightarrow> nat \<Rightarrow> bool \<Rightarrow> bitmap res" where
  "bitmap_set btmp bit_idx v =
     (if bit_idx < length (bits btmp) then Inr (btmp\<lparr>bits := (bits btmp)[bit_idx := v]\<rparr>)
      else Inl Undefined)"

text \<open>The loops \<^verbatim>\<open>while (cnt < pg_cnt) bitmap_set(b, bit_idx_start + cnt++, v)\<close>.\<close>

fun bitmap_set_range :: "bitmap \<Rightarrow> nat \<Rightarrow> nat \<Rightarrow> bool \<Rightarrow> bitmap res" where
  "bitmap_set_range btmp i 0 v = Inr btmp"
| "bitmap_set_range btmp i (Suc n) v =
     bindE (bitmap_set btmp i v) (\<lambda>btmp'. bitmap_set_range btmp' (Suc i) n v)"

subsection \<open>The mutex\<close>

text \<open>
  Modelled from the spec: \<^verbatim>\<open>sync.c\<close> is not among the sources. A lock is a mutex, free
  or held; acquiring a held mutex suspends the caller, which in a model with one thread
  never resumes.
\<close>

datatype lock = Free | Held

definition lock_init :: "lock" where
  "lock_init = Free"

definition lock_acquire :: "lock \<Rightarrow> lock res" where
  "lock_acquire l = (if l = Held then Inl Blocked else Inr Held)"

definition lock_release :: "lock \<Rightarrow> lock" where
  "lock_release l = Free"

subsection \<open>Pools, descriptors, tasks and the kernel state\<close>

record pool =
  pool_bitmap :: bitmap
  phy_addr_start :: u32
  pool_size :: u32
  lock :: lock

record virtual_addr =
  vaddr_bitmap :: bitmap
  vaddr_start :: u32

text \<open>
  Modelled from the spec: \<^verbatim>\<open>list.c\<close> is not among the sources. A free list is the
  sequence of the block addresses linked on it, head first.
\<close>

record mem_block_desc =
  block_size :: u32
  blocks_per_arena :: u32
  free_list :: "u32 list"

text \<open>A pointer to a descriptor: an entry of the kernel's array or of the running task's.\<close>

datatype desc_ref = KDesc nat | UDesc nat

record arena =
  desc :: "desc_ref option"
  large :: bool
  cnt :: u32

text \<open>\<open>u_blcok_desc_addr\<close> is the address of the array \<open>u_blcok_desc\<close> inside the task's
  control block.\<close>

record task_struct =
  pgdir :: u32
  userprog_vaddr :: virtual_addr
  u_blcok_desc :: "mem_block_desc list"
  u_blcok_desc_addr :: u32

text \<open>
  \<open>mem\<close> holds the 32-bit words the code reads and writes through pointers (page
  directory and page table entries, the word at 0xb00, heap data and the three words of
  every arena header), by virtual address. \<open>arenas\<close> is the typed view of the arena
  header stored at an address: the code reads the header fields from it, every store to
  a header field writes the field there and its word in \<open>mem\<close>, and \<^verbatim>\<open>memset\<close> clears
  both. The links of the free lists are kept in the lists of the descriptors, not in
  \<open>mem\<close>. \<open>k_block_descs_addr\<close> is the address of the array \<open>k_block_descs\<close>,
  \<open>cur\<close> is the task \<^verbatim>\<open>running_thread()\<close> returns and \<open>intr\<close> is the interrupt status.
\<close>

record kstate =
  kernel_pool :: pool
  user_pool :: pool
  kernel_vaddr :: virtual_addr
  k_block_descs :: "mem_block_desc list"
  k_block_descs_addr :: u32
  cur :: task_struct
  mem :: "u32 \<Rightarrow> u32"
  arenas :: "u32 \<Rightarrow> arena"
  intr :: bool

subsection \<open>Initialisation\<close>

definition mem_pool_init :: "kstate \<Rightarrow> u32 \<Rightarrow> kstate" where
  "mem_pool_init s all_mem =
    (let page_table_size = PG_SIZE * 256;
         used_mem = page_table_size + 0x100000;
         free_mem = all_mem - used_mem;
         all_free_pages = (ucast (free_mem div PG_SIZE) :: u16);
         kernel_free_pages = all_free_pages div 2;
         user_free_pages = all_free_pages - kernel_free_pages;
         kbm_length = (ucast (kernel_free_pages div 8) :: u32);
         ubm_length = (ucast (user_free_pages div 8) :: u32);
         kp_start = used_mem;
         up_start = kp_start + ucast kernel_free_pages * PG_SIZE;
         kp = \<lparr>pool_bitmap = bitmap_init
                  \<lparr>btmp_bytes_len = kbm_length, bits_addr = MEM_BITMAP_BASE, bits = []\<rparr>,
               phy_addr_start = kp_start,
               pool_size = ucast kernel_free_pages * PG_SIZE,
               lock = lock_init\<rparr>;
         up = \<lparr>pool_bitmap = bitmap_init
                  \<lparr>btmp_bytes_len = ubm_length, bits_addr = MEM_BITMAP_BASE + kbm_length,
                   bits = []\<rparr>,
               phy_addr_start = up_start,
               pool_size = ucast user_free_pages * PG_SIZE,
               lock = lock_init\<rparr>;
         kv = \<lparr>vaddr_bitmap = bitmap_init
                  \<lparr>btmp_bytes_len = kbm_length,
                   bits_addr = MEM_BITMAP_BASE + kbm_length + ubm_length, bits = []\<rparr>,
               vaddr_start = K_HEAP_START\<rparr>
     in s\<lparr>kernel_pool := kp, user_pool := up, kernel_vaddr := kv\<rparr>)"

text \<open>The number of whole 4 KiB frames above the low 1 MiB and the 256 page-table pages.\<close>

definition free_frames :: "u32 \<Rightarrow> nat" where
  "free_frames all_mem = unat (all_mem - 0x200000) div 4096"

text \<open>The loop of \<^verbatim>\<open>block_desc_init\<close>: \<open>block_size\<close> is a \<^verbatim>\<open>uint16_t\<close> that doubles.\<close>

fun block_desc_init_from :: "u16 \<Rightarrow> nat \<Rightarrow> mem_block_desc list" where
  "block_desc_init_from bsize 0 = []"
| "block_desc_init_from bsize (Suc n) =
     \<lparr>block_size = ucast bsize,
      blocks_per_arena = (PG_SIZE - sizeof_arena) div ucast bsize,
      free_list = []\<rparr> # block_desc_init_from (bsize * 2) n"

definition block_desc_init :: "mem_block_desc list" where
  "block_desc_init = block_desc_init_from 16 DESC_CNT"

definition mem_init :: "kstate \<Rightarrow> kstate" where
  "mem_init s =
     (let mem_bytes_total = mem s 0xb00;
          s1 = mem_pool_init s mem_bytes_total
      in s1\<lparr>k_block_descs := block_desc_init\<rparr>)"

subsection \<open>Page-table driver\<close>

definition PDE_IDX :: "u32 \<Rightarrow> u32" where
  "PDE_IDX addr = drop_bit 22 (addr AND 0xffc00000)"

definition PTE_IDX :: "u32 \<Rightarrow> u32" where
  "PTE_IDX addr = drop_bit 12 (addr AND 0x003ff000)"

definition pte_ptr :: "u32 \<Rightarrow> u32" where
  "pte_ptr vaddr = 0xffc00000 + drop_bit 10 (vaddr AND 0xffc00000) + PTE_IDX vaddr * 4"

definition pde_ptr :: "u32 \<Rightarrow> u32" where
  "pde_ptr vaddr = 0xfffff000 + PDE_IDX vaddr * 4"

text \<open>
  Modelled from the spec: \<^verbatim>\<open>memset(dst, 0, size)\<close> of \<^verbatim>\<open>string.c\<close>, the only way the
  source calls it. It clears the words of \<open>[dst, dst + size)\<close> and the arena headers
  stored there.
\<close>

definition clear_range :: "(u32 \<Rightarrow> 'a) \<Rightarrow> 'a \<Rightarrow> u32 \<Rightarrow> u32 \<Rightarrow> u32 \<Rightarrow> 'a" where
  "clear_range f z dst sz x = (if x - dst < sz then z else f x)"

definition memset_zero :: "kstate \<Rightarrow> u32 \<Rightarrow> u32 \<Rightarrow> kstate" where
  "memset_zero s dst sz =
     s\<lparr>mem := clear_range (mem s) 0 dst sz,
       arenas := clear_range (arenas s) \<lparr>desc = None, large = False, cnt = 0\<rparr> dst sz\<rparr>"

definition pool_of :: "kstate \<Rightarrow> pool_flags \<Rightarrow> pool" where
  "pool_of s pf = (if pf = PF_KERNEL then kernel_pool s else user_pool s)"

definition pool_update :: "kstate \<Rightarrow> pool_flags \<Rightarrow> pool \<Rightarrow> kstate" where
  "pool_update s pf p = (if pf = PF_KERNEL then s\<lparr>kernel_pool := p\<rparr> else s\<lparr>user_pool := p\<rparr>)"

definition pool_lock_acquire :: "kstate \<Rightarrow> pool_flags \<Rightarrow> kstate res" where
  "pool_lock_acquire s pf =
     bindE (lock_acquire (lock (pool_of s pf)))
       (\<lambda>l. Inr (pool_update s pf ((pool_of s pf)\<lparr>lock := l\<rparr>)))"

definition pool_lock_release :: "kstate \<Rightarrow> pool_flags \<Rightarrow> kstate" where
  "pool_lock_release s pf =
     pool_update s pf ((pool_of s pf)\<lparr>lock := lock_release (lock (pool_of s pf))\<rparr>)"

definition vaddr_get :: "kstate \<Rightarrow> pool_flags \<Rightarrow> u32 \<Rightarrow> (u32 \<times> kstate) res" where
  "vaddr_get s pf pg_cnt =
     (if pf = PF_KERNEL then
        (case bitmap_scan (vaddr_bitmap (kernel_vaddr s)) (unat pg_cnt) of
           None \<Rightarrow> Inr (0, s)
         | Some bit_idx_start \<Rightarrow>
             bindE (bitmap_set_range (vaddr_bitmap (kernel_vaddr s)) bit_idx_start
                      (unat pg_cnt) True)
               (\<lambda>btmp.
                  Inr (vaddr_start (kernel_vaddr s) + of_nat bit_idx_start * PG_SIZE,
                       s\<lparr>kernel_vaddr := (kernel_vaddr s)\<lparr>vaddr_bitmap := btmp\<rparr>\<rparr>)))
      else
        (case bitmap_scan (vaddr_bitmap (userprog_vaddr (cur s))) (unat pg_cnt) of
           None \<Rightarrow> Inr (0, s)
         | Some bit_idx_start \<Rightarrow>
             bindE (bitmap_set_range (vaddr_bitmap (userprog_vaddr (cur s))) bit_idx_start
                      (unat pg_cnt) True)
               (\<lambda>btmp.
                  let vaddr = vaddr_start (userprog_vaddr (cur s))
                                + of_nat bit_idx_start * PG_SIZE
                  in bindE (ASSERT (vaddr < 0xc0000000 - PG_SIZE))
                       (\<lambda>_. Inr (vaddr,
                          s\<lparr>cur := (cur s)\<lparr>userprog_vaddr :=
                               (userprog_vaddr (cur s))\<lparr>vaddr_bitmap := btmp\<rparr>\<rparr>\<rparr>)))))"

definition palloc :: "pool \<Rightarrow> (u32 \<times> pool) res" where
  "palloc m_pool =
     (case bitmap_scan (pool_bitmap m_pool) 1 of
        None \<Rightarrow> Inr (0, m_pool)
      | Some bit_idx \<Rightarrow>
          bindE (bitmap_set (pool_bitmap m_pool) bit_idx True)
            (\<lambda>btmp. Inr (of_nat bit_idx * PG_SIZE + phy_addr_start m_pool,
                          m_pool\<lparr>pool_bitmap := btmp\<rparr>)))"

definition page_table_add :: "kstate \<Rightarrow> u32 \<Rightarrow> u32 \<Rightarrow> kstate res" where
  "page_table_add s vaddr page_phyaddr =
     (let pde = pde_ptr vaddr; pte = pte_ptr vaddr in
      if mem s pde AND 0x00000001 \<noteq> 0 then
        bindE (ASSERT (mem s pte AND 0x00000001 = 0))
          (\<lambda>_. Inr (s\<lparr>mem := (mem s)(pte := page_phyaddr OR PG_US_U OR PG_RW_W OR PG_P_1)\<rparr>))
      else
        bindE (palloc (kernel_pool s))
          (\<lambda>(pde_phyaddr, kp).
             let s1 = s\<lparr>kernel_pool := kp,
                        mem := (mem s)(pde := pde_phyaddr OR PG_US_U OR PG_RW_W OR PG_P_1)\<rparr>;
                 s2 = memset_zero s1 (pte AND 0xfffff000) PG_SIZE
             in bindE (ASSERT (mem s2 pte AND 0x00000001 = 0))
                  (\<lambda>_. Inr (s2\<lparr>mem := (mem s2)
                               (pte := page_phyaddr OR PG_US_U OR PG_RW_W OR PG_P_1)\<rparr>))))"

subsection \<open>Page allocator\<close>

text \<open>The loop \<^verbatim>\<open>while (cnt-- > 0)\<close> of \<^verbatim>\<open>malloc_page\<close>; \<open>False\<close> when \<^verbatim>\<open>palloc\<close>
  returned NULL.\<close>

fun malloc_page_loop :: "kstate \<Rightarrow> pool_flags \<Rightarrow> u32 \<Rightarrow> nat \<Rightarrow> (bool \<times> kstate) res" where
  "malloc_page_loop s pf vaddr 0 = Inr (True, s)"
| "malloc_page_loop s pf vaddr (Suc n) =
     bindE (palloc (pool_of s pf))
       (\<lambda>(page_phyaddr, p).
          if page_phyaddr = 0 then Inr (False, pool_update s pf p)
          else bindE (page_table_add (pool_update s pf p) vaddr page_phyaddr)
                 (\<lambda>s'. malloc_page_loop s' pf (vaddr + PG_SIZE) n))"

definition malloc_page :: "kstate \<Rightarrow> pool_flags \<Rightarrow> u32 \<Rightarrow> (u32 \<times> kstate) res" where
  "malloc_page s pf pg_cnt =
     bindE (ASSERT (pg_cnt > 0 \<and> pg_cnt < 3840))
       (\<lambda>_. bindE (vaddr_get s pf pg_cnt)
          (\<lambda>(vaddr_start, s1).
             if vaddr_start = 0 then Inr (0, s1)
             else bindE (malloc_page_loop s1 pf vaddr_start (unat pg_cnt))
                    (\<lambda>(ok, s2). Inr (if ok then vaddr_start else 0, s2))))"

definition get_kernel_pages :: "kstate \<Rightarrow> u32 \<Rightarrow> (u32 \<times> kstate) res" where
  "get_kernel_pages s pg_cnt =
     bindE (pool_lock_acquire s PF_KERNEL)
       (\<lambda>s1. bindE (malloc_page s1 PF_KERNEL pg_cnt)
          (\<lambda>(vaddr, s2).
             let s3 = (if vaddr \<noteq> 0 then memset_zero s2 vaddr (pg_cnt * PG_SIZE) else s2)
             in Inr (vaddr, pool_lock_release s3 PF_KERNEL)))"

definition get_user_pages :: "kstate \<Rightarrow> u32 \<Rightarrow> (u32 \<times> kstate) res" where
  "get_user_pages s pg_cnt =
     bindE (pool_lock_acquire s PF_USER)
       (\<lambda>s1. bindE (malloc_page s1 PF_USER pg_cnt)
          (\<lambda>(vaddr, s2).
             let s3 = (if vaddr \<noteq> 0 then memset_zero s2 vaddr (pg_cnt * PG_SIZE) else s2)
             in Inr (vaddr, pool_lock_release s3 PF_USER)))"

definition get_a_page :: "kstate \<Rightarrow> pool_flags \<Rightarrow> u32 \<Rightarrow> (u32 \<times> kstate) res" where
  "get_a_page s pf vaddr =
     bindE (pool_lock_acquire s pf)
       (\<lambda>s1.
          bindE
            (if pgdir (cur s1) \<noteq> 0 \<and> pf = PF_USER then
               (let bit_idx = (vaddr - vaddr_start (userprog_vaddr (cur s1))) div PG_SIZE in
                bindE (ASSERT (sint bit_idx > 0))
                  (\<lambda>_. bindE (bitmap_set (vaddr_bitmap (userprog_vaddr (cur s1)))
                                 (unat bit_idx) True)
                     (\<lambda>btmp. Inr (s1\<lparr>cur := (cur s1)\<lparr>userprog_vaddr :=
                                     (userprog_vaddr (cur s1))\<lparr>vaddr_bitmap := btmp\<rparr>\<rparr>\<rparr>))))
             else if pgdir (cur s1) = 0 \<and> pf = PF_KERNEL then
               (let bit_idx = (vaddr - vaddr_start (kernel_vaddr s1)) div PG_SIZE in
                bindE (ASSERT (sint bit_idx > 0))
                  (\<lambda>_. bindE (bitmap_set (vaddr_bitmap (kernel_vaddr s1)) (unat bit_idx) True)
                     (\<lambda>btmp. Inr (s1\<lparr>kernel_vaddr :=
                                     (kernel_vaddr s1)\<lparr>vaddr_bitmap := btmp\<rparr>\<rparr>))))
             else Inl Panic)
            (\<lambda>s2. bindE (palloc (pool_of s2 pf))
               (\<lambda>(page_phyaddr, p).
                  if page_phyaddr = 0 then Inr (0, pool_update s2 pf p)
                  else bindE (page_table_add (pool_update s2 pf p) vaddr page_phyaddr)
                         (\<lambda>s3. Inr (vaddr, pool_lock_release s3 pf)))))"

definition get_a_page_without_opvaddrbitmap ::
    "kstate \<Rightarrow> pool_flags \<Rightarrow> u32 \<Rightarrow> (u32 \<times> kstate) res" where
  "get_a_page_without_opvaddrbitmap s pf vaddr =
     bindE (pool_lock_acquire s pf)
       (\<lambda>s1. bindE (palloc (pool_of s1 pf))
          (\<lambda>(page_phyaddr, p).
             if page_phyaddr = 0 then Inr (0, pool_lock_release (pool_update s1 pf p) pf)
             else bindE (page_table_add (pool_update s1 pf p) vaddr page_phyaddr)
                    (\<lambda>s2. Inr (vaddr, pool_lock_release s2 pf))))"

definition addr_v2p :: "kstate \<Rightarrow> u32 \<Rightarrow> u32" where
  "addr_v2p s vaddr = (mem s (pte_ptr vaddr) AND 0xfffff000) + (vaddr AND 0x00000fff)"

subsection \<open>Page release\<close>

definition pfree :: "kstate \<Rightarrow> u32 \<Rightarrow> kstate res" where
  "pfree s pg_phy_addr =
     (if pg_phy_addr \<ge> phy_addr_start (user_pool s) then
        bindE (bitmap_set (pool_bitmap (user_pool s))
                 (unat ((pg_phy_addr - phy_addr_start (user_pool s)) div PG_SIZE)) False)
          (\<lambda>btmp. Inr (s\<lparr>user_pool := (user_pool s)\<lparr>pool_bitmap := btmp\<rparr>\<rparr>))
      else
        bindE (bitmap_set (pool_bitmap (kernel_pool s))
                 (unat ((pg_phy_addr - phy_addr_start (kernel_pool s)) div PG_SIZE)) False)
          (\<lambda>btmp. Inr (s\<lparr>kernel_pool := (kernel_pool s)\<lparr>pool_bitmap := btmp\<rparr>\<rparr>)))"

definition free_a_phy_page :: "kstate \<Rightarrow> u32 \<Rightarrow> kstate res" where
  "free_a_phy_page s pg_phy_addr =
     (if pg_phy_addr \<ge> phy_addr_start (user_pool s) then
        bindE (bitmap_set (pool_bitmap (user_pool s))
                 (unat ((pg_phy_addr - phy_addr_start (user_pool s)) div PG_SIZE)) False)
          (\<lambda>btmp. Inr (s\<lparr>user_pool := (user_pool s)\<lparr>pool_bitmap := btmp\<rparr>\<rparr>))
      else
        bindE (bitmap_set (pool_bitmap (kernel_pool s))
                 (unat ((pg_phy_addr - phy_addr_start (kernel_pool s)) div PG_SIZE)) False)
          (\<lambda>btmp. Inr (s\<lparr>kernel_pool := (kernel_pool s)\<lparr>pool_bitmap := btmp\<rparr>\<rparr>)))"

text \<open>The TLB flush has no effect on the modelled state.\<close>

definition page_table_pte_remove :: "kstate \<Rightarrow> u32 \<Rightarrow> kstate" where
  "page_table_pte_remove s vaddr =
     s\<lparr>mem := (mem s)(pte_ptr vaddr := mem s (pte_ptr vaddr) AND NOT PG_P_1)\<rparr>"

definition vaddr_remove :: "kstate \<Rightarrow> pool_flags \<Rightarrow> u32 \<Rightarrow> u32 \<Rightarrow> kstate res" where
  "vaddr_remove s pf vaddr pg_cnt =
     (if pf = PF_KERNEL then
        bindE (bitmap_set_range (vaddr_bitmap (kernel_vaddr s))
                 (unat ((vaddr - vaddr_start (kernel_vaddr s)) div PG_SIZE)) (unat pg_cnt) False)
          (\<lambda>btmp. Inr (s\<lparr>kernel_vaddr := (kernel_vaddr s)\<lparr>vaddr_bitmap := btmp\<rparr>\<rparr>))
      else
        bindE (bitmap_set_range (vaddr_bitmap (userprog_vaddr (cur s)))
                 (unat ((vaddr - vaddr_start (userprog_vaddr (cur s))) div PG_SIZE))
                 (unat pg_cnt) False)
          (\<lambda>btmp. Inr (s\<lparr>cur := (cur s)\<lparr>userprog_vaddr :=
                          (userprog_vaddr (cur s))\<lparr>vaddr_bitmap := btmp\<rparr>\<rparr>\<rparr>)))"

text \<open>
  The two loops of \<^verbatim>\<open>mfree_page\<close>, one page per step; \<open>upool\<close> tells the user-pool
  branch from the kernel-pool branch, which differ in their assertion only.
\<close>

fun mfree_page_loop :: "kstate \<Rightarrow> bool \<Rightarrow> u32 \<Rightarrow> nat \<Rightarrow> kstate res" where
  "mfree_page_loop s upool vaddr 0 = Inr s"
| "mfree_page_loop s upool vaddr (Suc n) =
     (let pg_phy_addr = addr_v2p s vaddr in
      bindE (ASSERT (pg_phy_addr mod PG_SIZE = 0 \<and>
                (if upool then pg_phy_addr \<ge> phy_addr_start (user_pool s)
                 else pg_phy_addr \<ge> phy_addr_start (kernel_pool s) \<and>
                      pg_phy_addr < phy_addr_start (user_pool s))))
        (\<lambda>_. bindE (pfree s pg_phy_addr)
           (\<lambda>s1. mfree_page_loop (page_table_pte_remove s1 vaddr) upool (vaddr + PG_SIZE) n)))"

definition mfree_page :: "kstate \<Rightarrow> pool_flags \<Rightarrow> u32 \<Rightarrow> u32 \<Rightarrow> kstate res" where
  "mfree_page s pf vaddr pg_cnt =
     bindE (ASSERT (pg_cnt \<ge> 1 \<and> vaddr mod PG_SIZE = 0))
       (\<lambda>_. let pg_phy_addr = addr_v2p s vaddr in
          bindE (ASSERT (pg_phy_addr mod PG_SIZE = 0 \<and> pg_phy_addr \<ge> 0x102000))
            (\<lambda>_. bindE (mfree_page_loop s (pg_phy_addr \<ge> phy_addr_start (user_pool s))
                          vaddr (unat pg_cnt))
               (\<lambda>s1. vaddr_remove s1 pf vaddr pg_cnt)))"

subsection \<open>Heap allocator\<close>

text \<open>Modelled from the spec: the list primitive of \<^verbatim>\<open>list.c\<close> (append, pop, empty, find,
  remove) on the sequence of linked blocks.\<close>

definition list_empty :: "u32 list \<Rightarrow> bool" where
  "list_empty l = (l = [])"

definition list_append :: "u32 list \<Rightarrow> u32 \<Rightarrow> u32 list" where
  "list_append l e = l @ [e]"

definition list_pop :: "u32 list \<Rightarrow> (u32 \<times> u32 list) res" where
  "list_pop l = (case l of [] \<Rightarrow> Inl Undefined | e # r \<Rightarrow> Inr (e, r))"

definition elem_find :: "u32 list \<Rightarrow> u32 \<Rightarrow> bool" where
  "elem_find l e = (e \<in> set l)"

definition list_remove :: "u32 list \<Rightarrow> u32 \<Rightarrow> u32 list" where
  "list_remove l e = remove1 e l"

definition descs_of :: "kstate \<Rightarrow> pool_flags \<Rightarrow> mem_block_desc list" where
  "descs_of s pf = (if pf = PF_KERNEL then k_block_descs s else u_blcok_desc (cur s))"

definition desc_ref_of :: "pool_flags \<Rightarrow> nat \<Rightarrow> desc_ref" where
  "desc_ref_of pf i = (if pf = PF_KERNEL then KDesc i else UDesc i)"

definition get_desc :: "kstate \<Rightarrow> desc_ref \<Rightarrow> mem_block_desc res" where
  "get_desc s r =
     (case r of
        KDesc i \<Rightarrow> if i < length (k_block_descs s) then Inr (k_block_descs s ! i)
                   else Inl Undefined
      | UDesc i \<Rightarrow> if i < length (u_blcok_desc (cur s)) then Inr (u_blcok_desc (cur s) ! i)
                   else Inl Undefined)"

definition put_desc :: "kstate \<Rightarrow> desc_ref \<Rightarrow> mem_block_desc \<Rightarrow> kstate" where
  "put_desc s r d =
     (case r of
        KDesc i \<Rightarrow> s\<lparr>k_block_descs := (k_block_descs s)[i := d]\<rparr>
      | UDesc i \<Rightarrow> s\<lparr>cur := (cur s)\<lparr>u_blcok_desc := (u_blcok_desc (cur s))[i := d]\<rparr>\<rparr>)"

text \<open>The address \<^verbatim>\<open>&descs[desc_idx]\<close> of a descriptor.\<close>

definition desc_addr :: "kstate \<Rightarrow> desc_ref \<Rightarrow> u32" where
  "desc_addr s r =
     (case r of
        KDesc i \<Rightarrow> k_block_descs_addr s + of_nat i * sizeof_mem_block_desc
      | UDesc i \<Rightarrow> u_blcok_desc_addr (cur s) + of_nat i * sizeof_mem_block_desc)"

text \<open>The stores \<^verbatim>\<open>a->desc = d\<close>, \<^verbatim>\<open>a->large = l\<close> and \<^verbatim>\<open>a->cnt = c\<close>: the fields are
  the words at offsets 0, 4 and 8 of the header.\<close>

definition arena_set_desc :: "kstate \<Rightarrow> u32 \<Rightarrow> desc_ref option \<Rightarrow> kstate" where
  "arena_set_desc s a d =
     s\<lparr>mem := (mem s)(a := (case d of None \<Rightarrow> 0 | Some r \<Rightarrow> desc_addr s r)),
       arenas := (arenas s)(a := (arenas s a)\<lparr>desc := d\<rparr>)\<rparr>"

definition arena_set_large :: "kstate \<Rightarrow> u32 \<Rightarrow> bool \<Rightarrow> kstate" where
  "arena_set_large s a l =
     s\<lparr>mem := (mem s)(a + 4 := (if l then 1 else 0)),
       arenas := (arenas s)(a := (arenas s a)\<lparr>large := l\<rparr>)\<rparr>"

definition arena_set_cnt :: "kstate \<Rightarrow> u32 \<Rightarrow> u32 \<Rightarrow> kstate" where
  "arena_set_cnt s a c =
     s\<lparr>mem := (mem s)(a + 8 := c),
       arenas := (arenas s)(a := (arenas s a)\<lparr>cnt := c\<rparr>)\<rparr>"

text \<open>The descriptor \<^verbatim>\<open>a->desc\<close> points to; a null pointer cannot be followed.\<close>

definition arena_desc :: "kstate \<Rightarrow> u32 \<Rightarrow> (desc_ref \<times> mem_block_desc) res" where
  "arena_desc s a =
     (case desc (arenas s a) of
        None \<Rightarrow> Inl Undefined
      | Some r \<Rightarrow> bindE (get_desc s r) (\<lambda>d. Inr (r, d)))"

definition arena2block :: "kstate \<Rightarrow> u32 \<Rightarrow> u32 \<Rightarrow> u32 res" where
  "arena2block s a idx =
     bindE (arena_desc s a) (\<lambda>(r, d). Inr (a + sizeof_arena + idx * block_size d))"

definition block2arena :: "u32 \<Rightarrow> u32" where
  "block2arena b = b AND 0xfffff000"

text \<open>The search \<^verbatim>\<open>for (desc_idx = 0; desc_idx < DESC_CNT; desc_idx++)\<close> of
  \<^verbatim>\<open>sys_malloc\<close>, which stops at the first descriptor that is large enough.\<close>

fun find_desc :: "mem_block_desc list \<Rightarrow> u32 \<Rightarrow> nat \<Rightarrow> nat" where
  "find_desc [] sz desc_idx = desc_idx"
| "find_desc (d # ds) sz desc_idx =
     (if sz \<le> block_size d then desc_idx else find_desc ds sz (Suc desc_idx))"

text \<open>The loop of \<^verbatim>\<open>sys_malloc\<close> that links the blocks of a new arena.\<close>

fun arena_blocks_append :: "kstate \<Rightarrow> u32 \<Rightarrow> u32 \<Rightarrow> nat \<Rightarrow> kstate res" where
  "arena_blocks_append s a block_idx 0 = Inr s"
| "arena_blocks_append s a block_idx (Suc n) =
     bindE (arena2block s a block_idx)
       (\<lambda>b. bindE (arena_desc s a)
          (\<lambda>(r, d). bindE (ASSERT (\<not> elem_find (free_list d) b))
             (\<lambda>_. arena_blocks_append
                     (put_desc s r (d\<lparr>free_list := list_append (free_list d) b\<rparr>))
                     a (block_idx + 1) n)))"

text \<open>The new-arena branch of \<^verbatim>\<open>sys_malloc\<close>; \<open>False\<close> when \<^verbatim>\<open>malloc_page\<close>
  returned NULL.\<close>

definition arena_create :: "kstate \<Rightarrow> pool_flags \<Rightarrow> nat \<Rightarrow> (bool \<times> kstate) res" where
  "arena_create s pf desc_idx =
     bindE (malloc_page s pf 1)
       (\<lambda>(a, s1).
          if a = 0 then Inr (False, s1)
          else bindE (get_desc s1 (desc_ref_of pf desc_idx))
            (\<lambda>d. let s2 = memset_zero s1 a PG_SIZE;
                      s3 = arena_set_cnt
                             (arena_set_large
                                (arena_set_desc s2 a (Some (desc_ref_of pf desc_idx)))
                                a False)
                             a (blocks_per_arena d);
                      old_status = intr s3;
                      s4 = s3\<lparr>intr := False\<rparr>
                  in bindE (arena_blocks_append s4 a 0 (unat (blocks_per_arena d)))
                       (\<lambda>s5. Inr (True, s5\<lparr>intr := old_status\<rparr>))))"

text \<open>The small path of \<^verbatim>\<open>sys_malloc\<close> after the search: a block of descriptor
  \<open>desc_idx\<close>, from a new arena when its free list is empty.\<close>

definition sys_malloc_block :: "kstate \<Rightarrow> pool_flags \<Rightarrow> nat \<Rightarrow> (u32 \<times> kstate) res" where
  "sys_malloc_block s pf desc_idx =
     (let r = desc_ref_of pf desc_idx
      in bindE (get_desc s r)
           (\<lambda>d. bindE (if list_empty (free_list d) then arena_create s pf desc_idx
                        else Inr (True, s))
              (\<lambda>(ok, s1).
                 if \<not> ok then Inr (0, pool_lock_release s1 pf)
                 else bindE (get_desc s1 r)
                   (\<lambda>d1. bindE (list_pop (free_list d1))
                      (\<lambda>(b, rest).
                         let s2 = put_desc s1 r (d1\<lparr>free_list := rest\<rparr>);
                             s3 = memset_zero s2 b (block_size d1);
                             a = block2arena b;
                             s4 = arena_set_cnt s3 a (cnt (arenas s3 a) - 1)
                         in Inr (b, pool_lock_release s4 pf))))))"

definition sys_malloc_small :: "kstate \<Rightarrow> pool_flags \<Rightarrow> u32 \<Rightarrow> (u32 \<times> kstate) res" where
  "sys_malloc_small s pf sz =
     sys_malloc_block s pf (find_desc (take DESC_CNT (descs_of s pf)) sz 0)"

definition sys_malloc_large :: "kstate \<Rightarrow> pool_flags \<Rightarrow> u32 \<Rightarrow> (u32 \<times> kstate) res" where
  "sys_malloc_large s pf sz =
     (let page_cnt = DIV_ROUND_UP (sz + sizeof_arena) PG_SIZE in
      bindE (malloc_page s pf page_cnt)
        (\<lambda>(a, s1).
           if a \<noteq> 0 then
             (let s2 = memset_zero s1 a (page_cnt * PG_SIZE);
                  s3 = arena_set_large
                         (arena_set_cnt (arena_set_desc s2 a None) a page_cnt) a True
              in Inr (a + sizeof_arena, pool_lock_release s3 pf))
           else Inr (0, pool_lock_release s1 pf)))"

definition sys_malloc :: "kstate \<Rightarrow> u32 \<Rightarrow> (u32 \<times> kstate) res" where
  "sys_malloc s sz =
     (let pf = (if pgdir (cur s) = 0 then PF_KERNEL else PF_USER);
          psize = pool_size (pool_of s pf)
      in if \<not> (sz > 0 \<and> sz < psize) then Inr (0, s)
         else bindE (pool_lock_acquire s pf)
                (\<lambda>s1. if sz > 1024 then sys_malloc_large s1 pf sz
                       else sys_malloc_small s1 pf sz))"

text \<open>The loop of \<^verbatim>\<open>sys_free\<close> that unlinks every block of a fully free arena.\<close>

fun arena_blocks_remove :: "kstate \<Rightarrow> u32 \<Rightarrow> u32 \<Rightarrow> nat \<Rightarrow> kstate res" where
  "arena_blocks_remove s a block_idx 0 = Inr s"
| "arena_blocks_remove s a block_idx (Suc n) =
     bindE (arena2block s a block_idx)
       (\<lambda>b. bindE (arena_desc s a)
          (\<lambda>(r, d). bindE (ASSERT (elem_find (free_list d) b))
             (\<lambda>_. arena_blocks_remove
                     (put_desc s r (d\<lparr>free_list := list_remove (free_list d) b\<rparr>))
                     a (block_idx + 1) n)))"

definition sys_free :: "kstate \<Rightarrow> u32 \<Rightarrow> kstate res" where
  "sys_free s ptr =
     bindE (ASSERT (ptr \<noteq> 0))
       (\<lambda>_. bindE (if pgdir (cur s) = 0
                    then bindE (ASSERT (ptr \<ge> K_HEAP_START)) (\<lambda>_. Inr PF_KERNEL)
                    else Inr PF_USER)
          (\<lambda>pf. bindE (pool_lock_acquire s pf)
             (\<lambda>s1.
                let b = ptr; a = block2arena b in
                bindE
                  (if desc (arenas s1 a) = None \<and> large (arenas s1 a) then
                     mfree_page s1 pf a (cnt (arenas s1 a))
                   else
                     bindE (arena_desc s1 a)
                       (\<lambda>(r, d).
                          let s2 = put_desc s1 r (d\<lparr>free_list := list_append (free_list d) b\<rparr>);
                              c = cnt (arenas s2 a) + 1;
                              s3 = arena_set_cnt s2 a c
                          in if c = blocks_per_arena d then
                               bindE (arena_blocks_remove s3 a 0 (unat (blocks_per_arena d)))
                                 (\<lambda>s4. mfree_page s4 pf a 1)
                             else Inr s3))
                  (\<lambda>s5. Inr (pool_lock_release s5 pf)))))"

subsection \<open>A state before initialisation\<close>

text \<open>All of memory is zero, no pool has been set up and the main kernel thread, whose
  control block is the page at 0xc009e000, is running.\<close>

definition empty_bitmap :: bitmap where
  "empty_bitmap = \<lparr>btmp_bytes_len = 0, bits_addr = 0, bits = []\<rparr>"

definition boot_state :: kstate where
  "boot_state =
     \<lparr>kernel_pool = \<lparr>pool_bitmap = empty_bitmap, phy_addr_start = 0, pool_size = 0,
                     lock = Free\<rparr>,
      user_pool = \<lparr>pool_bitmap = empty_bitmap, phy_addr_start = 0, pool_size = 0,
                   lock = Free\<rparr>,
      kernel_vaddr = \<lparr>vaddr_bitmap = empty_bitmap, vaddr_start = 0\<rparr>,
      k_block_descs = [],
      k_block_descs_addr = 0xc0008000,
      cur = \<lparr>pgdir = 0,
             userprog_vaddr = \<lparr>vaddr_bitmap = empty_bitmap, vaddr_start = 0\<rparr>,
             u_blcok_desc = [],
             u_blcok_desc_addr = 0xc009e100\<rparr>,
      mem = (\<lambda>_. 0),
      arenas = (\<lambda>_. \<lparr>desc = None, large = False, cnt = 0\<rparr>),
      intr = False\<rparr>"

subsection \<open>Concrete inputs\<close>

text \<open>The bootloader reports 2 MiB and three pages: three free frames.\<close>

definition odd_frames_boot :: kstate where
  "odd_frames_boot = boot_state\<lparr>mem := (mem boot_state)(0xb00 := 0x203000)\<rparr>"

text \<open>512 MiB of RAM: 130560 free frames.\<close>

definition big_ram :: u32 where
  "big_ram = 0x20000000"

text \<open>The bootloader reports 32 MiB.\<close>

definition ram_32M_boot :: kstate where
  "ram_32M_boot = boot_state\<lparr>mem := (mem boot_state)(0xb00 := 0x2000000)\<rparr>"

text \<open>A user task whose virtual pool ends at 0xC0000000; its last three pages are
  free.\<close>

definition user_near_top :: kstate where
  "user_near_top = boot_state\<lparr>cur := \<lparr>pgdir = 0x00300000,
       userprog_vaddr = \<lparr>vaddr_bitmap = \<lparr>btmp_bytes_len = 1, bits_addr = 0xc0200000,
            bits = [True, True, True, True, True, False, False, False]\<rparr>,
          vaddr_start = 0xBFFF8000\<rparr>,
       u_blcok_desc = block_desc_init,
       u_blcok_desc_addr = 0xc0120100\<rparr>\<rparr>"

text \<open>The same task with only the page at 0xBFFFF000 free.\<close>

definition user_at_top :: kstate where
  "user_at_top = boot_state\<lparr>cur := \<lparr>pgdir = 0x00300000,
       userprog_vaddr = \<lparr>vaddr_bitmap = \<lparr>btmp_bytes_len = 1, bits_addr = 0xc0200000,
            bits = [True, True, True, True, True, True, True, False]\<rparr>,
          vaddr_start = 0xBFFF8000\<rparr>,
       u_blcok_desc = block_desc_init,
       u_blcok_desc_addr = 0xc0120100\<rparr>\<rparr>"

text \<open>The value and the state a call returns with, \<open>None\<close> when it halts.\<close>

definition returned :: "('a \<times> kstate) res \<Rightarrow> 'a option" where
  "returned r = (case r of Inl e \<Rightarrow> None | Inr (x, s) \<Rightarrow> Some x)"

definition state_after :: "('a \<times> kstate) res \<Rightarrow> kstate option" where
  "state_after r = (case r of Inl e \<Rightarrow> None | Inr (x, s) \<Rightarrow> Some s)"

text \<open>The state right after \<^verbatim>\<open>lock_acquire\<close> on the pool of \<open>pf\<close>.\<close>

definition lock_taken :: "kstate \<Rightarrow> pool_flags \<Rightarrow> kstate" where
  "lock_taken s pf = pool_update s pf ((pool_of s pf)\<lparr>lock := Held\<rparr>)"

text \<open>The seven block sizes \<^verbatim>\<open>block_desc_init\<close> writes.\<close>

definition class_sizes :: "u32 list" where
  "class_sizes = [16, 32, 64, 128, 256, 512, 1024]"

text \<open>A kernel thread runs with every frame of the kernel pool allocated.\<close>

definition kernel_pool_full :: kstate where
  "kernel_pool_full = boot_state
     \<lparr>kernel_pool := \<lparr>pool_bitmap = \<lparr>btmp_bytes_len = 1, bits_addr = 0xc009a000,
                                       bits = replicate 8 True\<rparr>,
                       phy_addr_start = 0x200000, pool_size = 0x8000, lock = Free\<rparr>,
      kernel_vaddr := \<lparr>vaddr_bitmap = \<lparr>btmp_bytes_len = 1, bits_addr = 0xc009a002,
                                         bits = replicate 8 False\<rparr>,
                        vaddr_start = 0xc0100000\<rparr>,
      k_block_descs := block_desc_init\<rparr>"

text \<open>A kernel thread holds the kernel pool; the heap page at 0xc0100000 is mapped to
  the first frame of the kernel pool, the page after it to a frame of the low 1 MiB.\<close>

definition frames_mapped :: kstate where
  "frames_mapped = boot_state
     \<lparr>kernel_pool := \<lparr>pool_bitmap = \<lparr>btmp_bytes_len = 1, bits_addr = 0xc009a000,
                          bits = [True, False, False, False, False, False, False, False]\<rparr>,
                       phy_addr_start = 0x200000, pool_size = 0x8000, lock = Held\<rparr>,
      user_pool := \<lparr>pool_bitmap = \<lparr>btmp_bytes_len = 1, bits_addr = 0xc009a001,
                          bits = replicate 8 False\<rparr>,
                       phy_addr_start = 0x208000, pool_size = 0x8000, lock = Free\<rparr>,
      kernel_vaddr := \<lparr>vaddr_bitmap = \<lparr>btmp_bytes_len = 1, bits_addr = 0xc009a002,
                          bits = [True, True, False, False, False, False, False, False]\<rparr>,
                        vaddr_start = 0xc0100000\<rparr>,
      k_block_descs := block_desc_init,
      mem := (\<lambda>_. 0)(0xfff00400 := 0x00200007, 0xfff00404 := 0x00050007)\<rparr>"

text \<open>The virtual pool of a domain, and the bitmap with \<open>n\<close> bits from \<open>i\<close> on
  written.\<close>

definition vpool :: "kstate \<Rightarrow> pool_flags \<Rightarrow> virtual_addr" where
  "vpool s pf = (if pf = PF_KERNEL then kernel_vaddr s else userprog_vaddr (cur s))"

definition vpool_update :: "kstate \<Rightarrow> pool_flags \<Rightarrow> virtual_addr \<Rightarrow> kstate" where
  "vpool_update s pf vb =
     (if pf = PF_KERNEL then s\<lparr>kernel_vaddr := vb\<rparr>
      else s\<lparr>cur := (cur s)\<lparr>userprog_vaddr := vb\<rparr>\<rparr>)"

definition set_bits :: "bitmap \<Rightarrow> nat \<Rightarrow> nat \<Rightarrow> bool \<Rightarrow> bitmap" where
  "set_bits btmp i n v =
     btmp\<lparr>bits := take i (bits btmp) @ replicate n v @ drop (i + n) (bits btmp)\<rparr>"

text \<open>A machine with 64 free frames whose page directory maps the kernel heap, before
  and after \<^verbatim>\<open>mem_init\<close>.\<close>

definition small_boot :: kstate where
  "small_boot = boot_state\<lparr>mem := (mem boot_state)(0xb00 := 0x240000, 0xfffffc00 := 0x00101007)\<rparr>"

definition small_kernel :: kstate where
  "small_kernel = mem_init small_boot"

section \<open>Properties\<close>

subsection \<open>Arithmetic of the 16-bit page counters\<close>

lemma unat_ucast_32_16: "unat (ucast (w::u32) :: u16) = unat w mod 65536"
  by (simp add: unsigned_ucast_eq take_bit_eq_mod) 

lemma unat_ucast_16_32: "unat (ucast (w::u16) :: u32) = unat w"
proof -
  have "unat w < 2 ^ 16" using unsigned_less [of w] by simp
  then show ?thesis by (simp add: unsigned_ucast_eq take_bit_eq_mod)
qed

lemma unat_u16_sub_half: "unat ((a::u16) - a div 2) = unat a - unat a div 2"
proof -
  have "a div 2 \<le> a" by (simp add: word_le_nat_alt unat_div)
  then show ?thesis by (simp add: unat_sub unat_div)
qed

lemma unat_pages_bytes: "unat (ucast (k::u16) * PG_SIZE :: u32) = unat k * 4096"
proof -
  have "unat k < 2 ^ 16" using unsigned_less [of k] by simp
  then have "unat k * 4096 < 2 ^ 32" by simp
  then show ?thesis
    by (simp add: PG_SIZE_def unat_word_ariths unat_ucast_16_32)
qed

lemma all_free_pages_unat:
  "unat (ucast ((all_mem - (PG_SIZE * 256 + 0x100000)) div PG_SIZE) :: u16)
     = free_frames all_mem mod 65536"
  by (simp add: unat_ucast_32_16 unat_div free_frames_def PG_SIZE_def)

lemma kernel_pool_size_unat:
  "unat (pool_size (kernel_pool (mem_pool_init s all_mem)))
     = free_frames all_mem mod 65536 div 2 * 4096"
  by (simp add: mem_pool_init_def Let_def unat_pages_bytes unat_div all_free_pages_unat)

lemma user_pool_size_unat:
  "unat (pool_size (user_pool (mem_pool_init s all_mem))) =
     (free_frames all_mem mod 65536 - free_frames all_mem mod 65536 div 2) * 4096"
  by (simp add: mem_pool_init_def Let_def unat_pages_bytes unat_u16_sub_half all_free_pages_unat)

lemma kernel_pool_start: "phy_addr_start (kernel_pool (mem_pool_init s all_mem)) = 0x200000"
  by (simp add: mem_pool_init_def Let_def PG_SIZE_def)

lemma user_pool_start_unat:
  "unat (phy_addr_start (user_pool (mem_pool_init s all_mem))) =
     0x200000 + free_frames all_mem mod 65536 div 2 * 4096"
proof -
  let ?k = "ucast ((all_mem - (PG_SIZE * 256 + 0x100000)) div PG_SIZE) div 2 :: u16"
  have k: "unat (ucast ?k * PG_SIZE :: u32) = free_frames all_mem mod 65536 div 2 * 4096"
    by (simp add: unat_pages_bytes unat_div all_free_pages_unat)
  have "unat ((0x200000::u32) + ucast ?k * PG_SIZE) = 0x200000 + unat (ucast ?k * PG_SIZE :: u32)"
    using k by (simp add: unat_word_ariths)
  then show ?thesis using k
    by (simp add: mem_pool_init_def Let_def PG_SIZE_def)
qed

lemma mem_init_pools:
  "kernel_pool (mem_init s) = kernel_pool (mem_pool_init s (mem s 0xb00))"
  "user_pool (mem_init s) = user_pool (mem_pool_init s (mem s 0xb00))"
  by (simp_all add: mem_init_def Let_def)

lemma free_frames_odd_boot: "free_frames (mem odd_frames_boot 0xb00) = 3"
  by (simp add: odd_frames_boot_def free_frames_def)


lemma half_le_rest: "(n::nat) div 2 * 4096 \<le> (n - n div 2) * 4096"
  by simp

lemma mem_init_kernel_le_user:
  "pool_size (kernel_pool (mem_init s)) \<le> pool_size (user_pool (mem_init s))"
  unfolding word_le_nat_alt mem_init_pools kernel_pool_size_unat user_pool_size_unat
  by (rule half_le_rest)

text \<open>
  C3, as the code has it. \<^verbatim>\<open>mem_init\<close> never gives the kernel pool more than the user
  pool. When the free frames (above the low 1 MiB and the 256 page-table pages) fit the
  16-bit counter, the kernel pool gets half of them rounded down and the user pool the
  rest: an odd frame goes to the user pool, an even count is split in equal halves.
\<close>

theorem mem_init_split:
  "pool_size (kernel_pool (mem_init s)) \<le> pool_size (user_pool (mem_init s)) \<and>
   (free_frames (mem s 0xb00) < 65536 \<longrightarrow>
      unat (pool_size (kernel_pool (mem_init s))) = free_frames (mem s 0xb00) div 2 * 4096 \<and>
      unat (pool_size (user_pool (mem_init s))) =
        (free_frames (mem s 0xb00) - free_frames (mem s 0xb00) div 2) * 4096 \<and>
      (odd (free_frames (mem s 0xb00)) \<longrightarrow>
        unat (pool_size (user_pool (mem_init s)))
          = unat (pool_size (kernel_pool (mem_init s))) + 4096) \<and>
      (even (free_frames (mem s 0xb00)) \<longrightarrow>
        pool_size (user_pool (mem_init s)) = pool_size (kernel_pool (mem_init s))))"
proof (intro conjI impI)
  let ?n = "free_frames (mem s 0xb00)"
  show "pool_size (kernel_pool (mem_init s)) \<le> pool_size (user_pool (mem_init s))"
    by (rule mem_init_kernel_le_user)
  assume small: "?n < 65536"
  then have m: "?n mod 65536 = ?n" by simp
  show k: "unat (pool_size (kernel_pool (mem_init s))) = ?n div 2 * 4096"
    by (simp only: mem_init_pools kernel_pool_size_unat m)
  show u: "unat (pool_size (user_pool (mem_init s))) = (?n - ?n div 2) * 4096"
    by (simp only: mem_init_pools user_pool_size_unat m)
  show "unat (pool_size (user_pool (mem_init s)))
          = unat (pool_size (kernel_pool (mem_init s))) + 4096" if "odd ?n"
  proof -
    have "(?n - ?n div 2) * 4096 = ?n div 2 * 4096 + 4096"
      using that by (elim oddE) simp
    then show ?thesis by (simp only: k u)
  qed
  show "pool_size (user_pool (mem_init s)) = pool_size (kernel_pool (mem_init s))"
    if "even ?n"
  proof -
    have "(?n - ?n div 2) * 4096 = ?n div 2 * 4096"
      using that by (elim evenE) simp
    then have "unat (pool_size (user_pool (mem_init s)))
                 = unat (pool_size (kernel_pool (mem_init s)))"
      by (simp only: k u)
    then show ?thesis by (simp only: word_unat_eq_iff)
  qed
qed

theorem mem_init_split_witness:
  "free_frames (mem odd_frames_boot 0xb00) < 65536 \<and>
   odd (free_frames (mem odd_frames_boot 0xb00)) \<and>
   unat (pool_size (kernel_pool (mem_init odd_frames_boot))) = 4096 \<and>
   unat (pool_size (user_pool (mem_init odd_frames_boot))) = 8192"
  using mem_init_split [of odd_frames_boot] by (simp add: free_frames_odd_boot)

text \<open>With three free frames the kernel pool gets one and the user pool two, so the
  kernel pool is not the larger one.\<close>

theorem mem_init_kernel_not_larger:
  "\<not> pool_size (kernel_pool (mem_init odd_frames_boot))
       \<ge> pool_size (user_pool (mem_init odd_frames_boot))"
  by (simp add: word_le_nat_alt mem_init_pools kernel_pool_size_unat user_pool_size_unat
        free_frames_odd_boot)

lemma free_frames_big_ram: "free_frames big_ram = 130560"
  by (simp add: big_ram_def free_frames_def)

text \<open>
  C9. \<^verbatim>\<open>mem_pool_init\<close> computes both pool sizes and the start of the user pool from
  the free frame count reduced modulo \<open>2 ^ 16\<close>, for every memory size; with 65536 free
  frames or more the two pools together cover fewer bytes than the free frames hold.
\<close>

theorem mem_pool_init_counts_mod_65536:
  "unat (pool_size (kernel_pool (mem_pool_init s all_mem)))
      = free_frames all_mem mod 65536 div 2 * 4096 \<and>
   unat (pool_size (user_pool (mem_pool_init s all_mem)))
      = (free_frames all_mem mod 65536 - free_frames all_mem mod 65536 div 2) * 4096 \<and>
   phy_addr_start (kernel_pool (mem_pool_init s all_mem)) = 0x200000 \<and>
   unat (phy_addr_start (user_pool (mem_pool_init s all_mem)))
      = 0x200000 + free_frames all_mem mod 65536 div 2 * 4096 \<and>
   (65536 \<le> free_frames all_mem \<longrightarrow>
      unat (pool_size (kernel_pool (mem_pool_init s all_mem)))
        + unat (pool_size (user_pool (mem_pool_init s all_mem)))
        < free_frames all_mem * 4096)"
proof -
  let ?n = "free_frames all_mem"
  have "?n mod 65536 div 2 + (?n mod 65536 - ?n mod 65536 div 2) = ?n mod 65536"
    by simp
  then have "?n mod 65536 div 2 * 4096 + (?n mod 65536 - ?n mod 65536 div 2) * 4096
          = ?n mod 65536 * 4096"
    by (simp only: add_mult_distrib [symmetric])
  moreover have "?n mod 65536 * 4096 < ?n * 4096" if "65536 \<le> ?n"
  proof -
    have "?n mod 65536 < 65536" by simp
    with that show ?thesis by simp
  qed
  ultimately show ?thesis
    by (simp add: kernel_pool_size_unat user_pool_size_unat kernel_pool_start
          user_pool_start_unat)
qed

theorem mem_pool_init_counts_mod_65536_witness:
  "65536 \<le> free_frames big_ram \<and>
   unat (pool_size (kernel_pool (mem_pool_init boot_state big_ram))) = 32512 * 4096 \<and>
   unat (pool_size (user_pool (mem_pool_init boot_state big_ram))) = 32512 * 4096 \<and>
   unat (phy_addr_start (user_pool (mem_pool_init boot_state big_ram)))
      = 0x200000 + 32512 * 4096 \<and>
   unat (pool_size (kernel_pool (mem_pool_init boot_state big_ram)))
        + unat (pool_size (user_pool (mem_pool_init boot_state big_ram)))
        < free_frames big_ram * 4096"
  using mem_pool_init_counts_mod_65536 [of boot_state big_ram]
  by (simp add: free_frames_big_ram)

subsection \<open>Sequencing and locks\<close>

lemma bindE_simps [simp]:
  "bindE (Inl e) f = Inl e"
  "bindE (Inr x) f = f x"
  by (simp_all add: bindE_def)

lemma ASSERT_simps [simp]:
  "ASSERT True = Inr ()"
  "ASSERT False = Inl AssertFail"
  by (simp_all add: ASSERT_def)

subsection \<open>The page count assertion of malloc_page\<close>

lemma page_count_not_allowed:
  "pg_cnt = 0 \<or> 3840 \<le> pg_cnt \<Longrightarrow> \<not> (pg_cnt > 0 \<and> pg_cnt < (3840::u32))"
  by (auto simp: not_less)

lemma malloc_page_bad_count:
  "pg_cnt = 0 \<or> 3840 \<le> pg_cnt \<Longrightarrow> malloc_page s pf pg_cnt = Inl AssertFail"
  by (simp only: malloc_page_def page_count_not_allowed ASSERT_simps bindE_simps)

lemma pool_lock_acquire_free:
  "lock (pool_of s pf) = Free \<Longrightarrow>
     pool_lock_acquire s pf = Inr (pool_update s pf ((pool_of s pf)\<lparr>lock := Held\<rparr>))"
  by (simp add: pool_lock_acquire_def lock_acquire_def)

lemma pool_of_simps [simp]:
  "pool_of s PF_KERNEL = kernel_pool s"
  "pool_of s PF_USER = user_pool s"
  by (simp_all add: pool_of_def)

text \<open>
  C10. \<^verbatim>\<open>malloc_page\<close> asserts \<open>0 < pg_cnt < 3840\<close> before it looks at any pool: a
  request of 0 pages or of 3840 pages or more ends in an assertion failure, whatever the
  state of the pools, and so do \<^verbatim>\<open>get_kernel_pages\<close>, \<^verbatim>\<open>get_user_pages\<close> and the large
  path of \<^verbatim>\<open>sys_malloc\<close> (with the pool's mutex free on entry) when they pass such a
  count.
\<close>

theorem malloc_page_count_assert:
  assumes "pg_cnt = 0 \<or> 3840 \<le> pg_cnt"
  shows "malloc_page s pf pg_cnt = Inl AssertFail \<and>
         (lock (kernel_pool s) = Free \<longrightarrow> get_kernel_pages s pg_cnt = Inl AssertFail) \<and>
         (lock (user_pool s) = Free \<longrightarrow> get_user_pages s pg_cnt = Inl AssertFail) \<and>
         (lock (pool_of s (if pgdir (cur s) = 0 then PF_KERNEL else PF_USER)) = Free \<and>
          1024 < sz \<and> sz < pool_size (pool_of s (if pgdir (cur s) = 0 then PF_KERNEL else PF_USER)) \<and>
          DIV_ROUND_UP (sz + sizeof_arena) PG_SIZE = pg_cnt \<longrightarrow>
            sys_malloc s sz = Inl AssertFail)"
proof (intro conjI impI)
  show "malloc_page s pf pg_cnt = Inl AssertFail"
    using assms by (rule malloc_page_bad_count)
  show "get_kernel_pages s pg_cnt = Inl AssertFail" if "lock (kernel_pool s) = Free"
    using that assms
    by (simp add: get_kernel_pages_def pool_lock_acquire_free malloc_page_bad_count)
  show "get_user_pages s pg_cnt = Inl AssertFail" if "lock (user_pool s) = Free"
    using that assms
    by (simp add: get_user_pages_def pool_lock_acquire_free malloc_page_bad_count)
  let ?pf = "if pgdir (cur s) = 0 then PF_KERNEL else PF_USER"
  assume h: "lock (pool_of s ?pf) = Free \<and> 1024 < sz \<and> sz < pool_size (pool_of s ?pf) \<and>
          DIV_ROUND_UP (sz + sizeof_arena) PG_SIZE = pg_cnt"
  then have pos: "0 < sz" by (auto simp: word_gt_0)
  have acq: "pool_lock_acquire s ?pf = Inr (pool_update s ?pf ((pool_of s ?pf)\<lparr>lock := Held\<rparr>))"
    using h by (intro pool_lock_acquire_free) simp
  have "sys_malloc s sz = sys_malloc_large (pool_update s ?pf ((pool_of s ?pf)\<lparr>lock := Held\<rparr>)) ?pf sz"
    unfolding sys_malloc_def Let_def using h pos acq by simp
  also have "\<dots> = Inl AssertFail"
    unfolding sys_malloc_large_def Let_def using h assms
    by (simp add: malloc_page_bad_count)
  finally show "sys_malloc s sz = Inl AssertFail" .
qed

lemma booted_32M_kernel_pool_size:
  "pool_size (kernel_pool (mem_init ram_32M_boot)) = 0xF00000"
  by (simp add: mem_init_def ram_32M_boot_def mem_pool_init_def Let_def PG_SIZE_def boot_state_def)
lemma booted_32M_lock:
  "lock (kernel_pool (mem_init ram_32M_boot)) = Free"
  by (simp add: mem_init_def ram_32M_boot_def mem_pool_init_def Let_def  lock_init_def)
lemma booted_32M_pgdir:
  "pgdir (cur (mem_init ram_32M_boot)) = 0"
  by (simp add: mem_init_def ram_32M_boot_def mem_pool_init_def Let_def boot_state_def)

theorem malloc_page_count_assert_witness:
  "malloc_page (mem_init ram_32M_boot) PF_KERNEL 3840 = Inl AssertFail \<and>
   get_kernel_pages (mem_init ram_32M_boot) 3840 = Inl AssertFail \<and>
   sys_malloc (mem_init ram_32M_boot) 15728000 = Inl AssertFail"
  using malloc_page_count_assert [where pg_cnt=3840 and s="mem_init ram_32M_boot" and sz=15728000 and pf=PF_KERNEL]
  by (simp add: booted_32M_kernel_pool_size booted_32M_lock booted_32M_pgdir
        DIV_ROUND_UP_def sizeof_arena_def PG_SIZE_def)

subsection \<open>Bitmaps\<close>

lemma returned_simps [simp]:
  "returned (Inl e) = None"
  "returned (Inr (x, s)) = Some x"
  by (simp_all add: returned_def)

lemma state_after_simps [simp]:
  "state_after (Inl e) = None"
  "state_after (Inr (x, s)) = Some s"
  by (simp_all add: state_after_def)

lemma bitmap_set_ok:
  "i < length (bits bm) \<Longrightarrow> bitmap_set bm i v = Inr (bm\<lparr>bits := (bits bm)[i := v]\<rparr>)"
  by (simp add: bitmap_set_def)

lemma bitmap_set_range_ok:
  "i + n \<le> length (bits bm) \<Longrightarrow>
     bitmap_set_range bm i n v =
       Inr (bm\<lparr>bits := take i (bits bm) @ replicate n v @ drop (i + n) (bits bm)\<rparr>)"
proof (induction n arbitrary: bm i)
  case 0
  then show ?case by simp
next
  case (Suc n)
  then have i: "i < length (bits bm)" by simp
  let ?bm = "bm\<lparr>bits := (bits bm)[i := v]\<rparr>"
  have "Suc i + n \<le> length (bits ?bm)" using Suc.prems by simp
  from Suc.IH [OF this] i show ?case
    by (simp add: bitmap_set_ok take_Suc_conv_app_nth replicate_app_Cons_same)
qed

lemma find_run_free:
  "find (\<lambda>i. run_free bs i n) [0 ..< length bs] = Some i \<Longrightarrow> i + n \<le> length bs"
  by (auto simp: find_Some_iff run_free_def)

lemma bitmap_scan_in_range:
  "bitmap_scan bm n = Some i \<Longrightarrow> i + n \<le> length (bits bm)"
  unfolding bitmap_scan_def by (rule find_run_free)

subsection \<open>The assertion of vaddr_get\<close>

text \<open>
  C7, as the code has it. A user-domain \<^verbatim>\<open>vaddr_get\<close> that returns a non-null base has
  passed the assertion \<open>base < 0xC0000000 - PG_SIZE\<close>, on the base address of the first
  page only, and a base that is not below that bound ends in an assertion failure. The
  end of the reserved range is not checked.
\<close>

theorem vaddr_get_user_asserts_base:
  "(returned (vaddr_get s PF_USER pg_cnt) = Some vaddr \<and> vaddr \<noteq> 0 \<longrightarrow>
      vaddr < 0xc0000000 - PG_SIZE) \<and>
   (bitmap_scan (vaddr_bitmap (userprog_vaddr (cur s))) (unat pg_cnt) = Some i \<and>
    \<not> vaddr_start (userprog_vaddr (cur s)) + of_nat i * PG_SIZE < 0xc0000000 - PG_SIZE \<longrightarrow>
      vaddr_get s PF_USER pg_cnt = Inl AssertFail)"
proof (intro conjI impI)
  assume "returned (vaddr_get s PF_USER pg_cnt) = Some vaddr \<and> vaddr \<noteq> 0"
  then show "vaddr < 0xc0000000 - PG_SIZE"
    by (auto simp: vaddr_get_def Let_def bindE_def ASSERT_def returned_def
          split: option.splits sum.splits if_splits)
next
  assume h: "bitmap_scan (vaddr_bitmap (userprog_vaddr (cur s))) (unat pg_cnt) = Some i \<and>
    \<not> vaddr_start (userprog_vaddr (cur s)) + of_nat i * PG_SIZE < 0xc0000000 - PG_SIZE"
  then have "i + unat pg_cnt \<le> length (bits (vaddr_bitmap (userprog_vaddr (cur s))))"
    by (intro bitmap_scan_in_range) simp
  then show "vaddr_get s PF_USER pg_cnt = Inl AssertFail"
    using h by (simp add: vaddr_get_def Let_def bitmap_set_range_ok)
qed

lemma scan_user_near_top_3:
  "bitmap_scan (vaddr_bitmap (userprog_vaddr (cur user_near_top))) 3 = Some 5"
  by (simp add: user_near_top_def bitmap_scan_def run_free_def upt_rec)

lemma scan_user_near_top_1:
  "bitmap_scan (vaddr_bitmap (userprog_vaddr (cur user_near_top))) (Suc 0) = Some 5"
  by (simp add: user_near_top_def bitmap_scan_def run_free_def upt_rec)

lemma scan_user_at_top:
  "bitmap_scan (vaddr_bitmap (userprog_vaddr (cur user_at_top))) (Suc 0) = Some 7"
  by (simp add: user_at_top_def bitmap_scan_def run_free_def upt_rec)

lemma vaddr_get_user_near_top_3:
  "returned (vaddr_get user_near_top PF_USER 3) = Some 0xBFFFD000"
  by (simp add: vaddr_get_def scan_user_near_top_3 Let_def PG_SIZE_def)
    (simp add: user_near_top_def bitmap_set_range_ok)

lemma vaddr_get_user_near_top_1:
  "returned (vaddr_get user_near_top PF_USER 1) = Some 0xBFFFD000"
  by (simp add: vaddr_get_def scan_user_near_top_1 Let_def PG_SIZE_def)
    (simp add: user_near_top_def bitmap_set_def)

text \<open>Three pages reserved at 0xBFFFD000 end at 0xC0000000, above
  \<open>0xC0000000 - PG_SIZE\<close>, and the call succeeds.\<close>

theorem vaddr_get_user_range_unchecked:
  "returned (vaddr_get user_near_top PF_USER 3) = Some 0xBFFFD000 \<and>
   \<not> (0xBFFFD000::u32) + 3 * PG_SIZE \<le> 0xC0000000 - PG_SIZE"
  by (simp add: vaddr_get_user_near_top_3 PG_SIZE_def)

theorem vaddr_get_user_asserts_base_witness:
  "returned (vaddr_get user_near_top PF_USER 1) = Some 0xBFFFD000 \<and>
   (0xBFFFD000::u32) \<noteq> 0 \<and> (0xBFFFD000::u32) < 0xc0000000 - PG_SIZE \<and>
   bitmap_scan (vaddr_bitmap (userprog_vaddr (cur user_at_top))) (unat (1::u32)) = Some 7 \<and>
   \<not> vaddr_start (userprog_vaddr (cur user_at_top)) + of_nat 7 * PG_SIZE < 0xc0000000 - PG_SIZE \<and>
   vaddr_get user_at_top PF_USER 1 = Inl AssertFail"
  using vaddr_get_user_asserts_base [of user_near_top 1 "0xBFFFD000" 0]
    vaddr_get_user_asserts_base [of user_at_top 1 0 7]
  by (simp add: vaddr_get_user_near_top_1 scan_user_at_top)
    (simp add: user_at_top_def PG_SIZE_def)

subsection \<open>Size classes\<close>

lemma block_desc_init_sizes: "map block_size block_desc_init = class_sizes"
  by code_simp

lemma descs_of_sizes_length:
  "map block_size ds = class_sizes \<Longrightarrow> length ds = 7"
  by (drule arg_cong [where f = length]) (simp add: class_sizes_def)

lemma find_desc_classes:
  assumes "map block_size ds = class_sizes"
  shows "find_desc (take DESC_CNT ds) sz 0 =
          (if sz \<le> 16 then 0 else if sz \<le> 32 then 1 else if sz \<le> 64 then 2
           else if sz \<le> 128 then 3 else if sz \<le> 256 then 4 else if sz \<le> 512 then 5
           else if sz \<le> 1024 then 6 else 7)"
proof -
  from assms obtain d0 d1 d2 d3 d4 d5 d6 where
    ds: "ds = [d0, d1, d2, d3, d4, d5, d6]" and
    bs: "block_size d0 = 16" "block_size d1 = 32" "block_size d2 = 64" "block_size d3 = 128"
        "block_size d4 = 256" "block_size d5 = 512" "block_size d6 = 1024"
    by (auto simp: class_sizes_def map_eq_Cons_conv)
  show ?thesis by (simp add: ds bs DESC_CNT_def)
qed

lemma class_sizes_nth:
  assumes "map block_size ds = class_sizes"
  shows "block_size (ds ! 0) = 16" "block_size (ds ! Suc 0) = 32" "block_size (ds ! 2) = 64"
    "block_size (ds ! 3) = 128" "block_size (ds ! 4) = 256" "block_size (ds ! 5) = 512"
    "block_size (ds ! 6) = 1024"
proof -
  from assms obtain d0 d1 d2 d3 d4 d5 d6 where
    ds: "ds = [d0, d1, d2, d3, d4, d5, d6]" and
    bs: "block_size d0 = 16" "block_size d1 = 32" "block_size d2 = 64" "block_size d3 = 128"
        "block_size d4 = 256" "block_size d5 = 512" "block_size d6 = 1024"
    by (auto simp: class_sizes_def map_eq_Cons_conv)
  show "block_size (ds ! 0) = 16" "block_size (ds ! Suc 0) = 32" "block_size (ds ! 2) = 64"
    "block_size (ds ! 3) = 128" "block_size (ds ! 4) = 256" "block_size (ds ! 5) = 512"
    "block_size (ds ! 6) = 1024"
    by (simp_all add: ds bs)
qed

lemma less_7_cases: "j < (7::nat) \<Longrightarrow> j = 0 \<or> j = 1 \<or> j = 2 \<or> j = 3 \<or> j = 4 \<or> j = 5 \<or> j = 6"
  by arith

lemma find_desc_least_class:
  assumes ds: "map block_size ds = class_sizes" and sz: "sz \<le> 1024"
  defines "i \<equiv> find_desc (take DESC_CNT ds) sz 0"
  shows "i < 7" "sz \<le> block_size (ds ! i)"
    "\<forall>j<7. sz \<le> block_size (ds ! j) \<longrightarrow> block_size (ds ! i) \<le> block_size (ds ! j)"
proof -
  note n = class_sizes_nth [OF ds]
  note f = find_desc_classes [OF ds, of sz]
  show "i < 7" using sz by (simp add: i_def f)
  show "sz \<le> block_size (ds ! i)" using sz by (simp add: i_def f n)
  show "\<forall>j<7. sz \<le> block_size (ds ! j) \<longrightarrow> block_size (ds ! i) \<le> block_size (ds ! j)"
  proof (intro allI impI)
    fix j :: nat assume j: "j < 7" and le: "sz \<le> block_size (ds ! j)"
    from less_7_cases [OF j] le show "block_size (ds ! i) \<le> block_size (ds ! j)"
      unfolding i_def f by (elim disjE) (simp_all add: n)
  qed
qed

lemma pool_lock_acquire_taken:
  "lock (pool_of s pf) = Free \<Longrightarrow> pool_lock_acquire s pf = Inr (lock_taken s pf)"
  by (simp add: pool_lock_acquire_free lock_taken_def)

lemma descs_of_lock_taken [simp]: "descs_of (lock_taken s pf) pf' = descs_of s pf'"
  by (simp add: descs_of_def lock_taken_def pool_update_def)

lemma sys_malloc_dispatch:
  assumes "pf = (if pgdir (cur s) = 0 then PF_KERNEL else PF_USER)"
    and "lock (pool_of s pf) = Free" and "0 < sz" and "sz < pool_size (pool_of s pf)"
  shows "sys_malloc s sz =
           (if sz > 1024 then sys_malloc_large (lock_taken s pf) pf sz
            else sys_malloc_small (lock_taken s pf) pf sz)"
proof -
  have "pool_lock_acquire s pf = Inr (lock_taken s pf)"
    using assms(2) by (rule pool_lock_acquire_taken)
  then show ?thesis
    using assms(1,3,4) unfolding sys_malloc_def Let_def by simp
qed

text \<open>
  C5. With the block sizes of \<^verbatim>\<open>block_desc_init\<close> and a request that passes the size
  guard, \<^verbatim>\<open>sys_malloc\<close> serves a size of at most 1024 from the descriptor with the
  smallest block size that is not below the request (100 bytes from the 128-byte
  descriptor, 1024 bytes from the 1024-byte descriptor), and takes the multi-page path
  for every larger size.
\<close>

theorem sys_malloc_size_class:
  assumes sizes: "map block_size (descs_of s pf) = class_sizes"
    and pf: "pf = (if pgdir (cur s) = 0 then PF_KERNEL else PF_USER)"
    and free: "lock (pool_of s pf) = Free"
    and range: "0 < sz" "sz < pool_size (pool_of s pf)"
  shows "(sz \<le> 1024 \<longrightarrow>
           (\<exists>i<7. sys_malloc s sz = sys_malloc_block (lock_taken s pf) pf i \<and>
                  sz \<le> block_size (descs_of s pf ! i) \<and>
                  (\<forall>j<7. sz \<le> block_size (descs_of s pf ! j) \<longrightarrow>
                     block_size (descs_of s pf ! i) \<le> block_size (descs_of s pf ! j)))) \<and>
         (sz = 100 \<longrightarrow> sys_malloc s sz = sys_malloc_block (lock_taken s pf) pf 3 \<and>
                      block_size (descs_of s pf ! 3) = 128) \<and>
         (sz = 1024 \<longrightarrow> sys_malloc s sz = sys_malloc_block (lock_taken s pf) pf 6 \<and>
                      block_size (descs_of s pf ! 6) = 1024) \<and>
         (1024 < sz \<longrightarrow> sys_malloc s sz = sys_malloc_large (lock_taken s pf) pf sz)"
proof -
  note d = sys_malloc_dispatch [OF pf free range]
  let ?i = "find_desc (take DESC_CNT (descs_of s pf)) sz 0"
  have small: "sys_malloc s sz = sys_malloc_block (lock_taken s pf) pf ?i" if "sz \<le> 1024"
    using that by (simp add: d sys_malloc_small_def not_less [symmetric])
  have c1: "\<exists>i<7. sys_malloc s sz = sys_malloc_block (lock_taken s pf) pf i \<and>
                  sz \<le> block_size (descs_of s pf ! i) \<and>
                  (\<forall>j<7. sz \<le> block_size (descs_of s pf ! j) \<longrightarrow>
                     block_size (descs_of s pf ! i) \<le> block_size (descs_of s pf ! j))"
    if le: "sz \<le> 1024"
    using small [OF le] find_desc_least_class [OF sizes le] by blast
  have c2: "sys_malloc s sz = sys_malloc_block (lock_taken s pf) pf 3" if "sz = 100"
  proof -
    have "?i = 3" by (simp add: find_desc_classes [OF sizes] that)
    moreover have "sz \<le> 1024" by (simp add: that)
    ultimately show ?thesis using small by simp
  qed
  have c3: "sys_malloc s sz = sys_malloc_block (lock_taken s pf) pf 6" if "sz = 1024"
  proof -
    have "?i = 6" by (simp add: find_desc_classes [OF sizes] that)
    moreover have "sz \<le> 1024" by (simp add: that)
    ultimately show ?thesis using small by simp
  qed
  have c4: "sys_malloc s sz = sys_malloc_large (lock_taken s pf) pf sz" if "1024 < sz"
    using that by (simp add: d)
  show ?thesis
    using c1 c2 c3 c4 class_sizes_nth(4,7) [OF sizes] by blast
qed

lemma booted_32M_descs: "descs_of (mem_init ram_32M_boot) PF_KERNEL = block_desc_init"
  by (simp add: descs_of_def mem_init_def Let_def)

theorem sys_malloc_size_class_witness:
  "sys_malloc (mem_init ram_32M_boot) 100
     = sys_malloc_block (lock_taken (mem_init ram_32M_boot) PF_KERNEL) PF_KERNEL 3 \<and>
   block_size (descs_of (mem_init ram_32M_boot) PF_KERNEL ! 3) = 128 \<and>
   sys_malloc (mem_init ram_32M_boot) 1024
     = sys_malloc_block (lock_taken (mem_init ram_32M_boot) PF_KERNEL) PF_KERNEL 6 \<and>
   sys_malloc (mem_init ram_32M_boot) 1025
     = sys_malloc_large (lock_taken (mem_init ram_32M_boot) PF_KERNEL) PF_KERNEL 1025"
  using sys_malloc_size_class [where s = "mem_init ram_32M_boot" and pf = PF_KERNEL and sz = 100]
    sys_malloc_size_class [where s = "mem_init ram_32M_boot" and pf = PF_KERNEL and sz = 1024]
    sys_malloc_size_class [where s = "mem_init ram_32M_boot" and pf = PF_KERNEL and sz = 1025]
  by (simp add: booted_32M_descs block_desc_init_sizes booted_32M_pgdir booted_32M_lock
        booted_32M_kernel_pool_size)

subsection \<open>The pool mutex\<close>

lemma palloc_full:
  "bitmap_scan (pool_bitmap p) 1 = None \<Longrightarrow> palloc p = Inr (0, p)"
  by (simp add: palloc_def)

lemma pool_of_pool_update [simp]:
  "pool_of (pool_update s pf p) pf = p"
  by (simp add: pool_of_def pool_update_def)

lemma lock_pool_of_lock_taken [simp]: "lock (pool_of (lock_taken s pf) pf) = Held"
  by (simp add: lock_taken_def)

lemma pool_update_same [simp]: "pool_update s pf (pool_of s pf) = s"
  by (simp add: pool_update_def pool_of_def)

text \<open>
  C2, where the code departs from it. When \<^verbatim>\<open>palloc\<close> finds no free frame,
  \<^verbatim>\<open>get_a_page\<close> returns NULL with the mutex of the pool still held: its failure path has
  no \<^verbatim>\<open>lock_release\<close>. The sibling \<^verbatim>\<open>get_a_page_without_opvaddrbitmap\<close> releases the
  mutex on the same path, and the other entry points release it on every return.
\<close>

theorem get_a_page_null_keeps_lock:
  assumes free: "lock (pool_of s pf) = Free"
    and full: "bitmap_scan (pool_bitmap (pool_of s pf)) 1 = None"
    and dom: "pf = (if pgdir (cur s) = 0 then PF_KERNEL else PF_USER)"
    and vb: "vb = (if pf = PF_KERNEL then kernel_vaddr s else userprog_vaddr (cur s))"
    and idx: "0 < sint ((vaddr - vaddr_start vb) div PG_SIZE)"
             "unat ((vaddr - vaddr_start vb) div PG_SIZE) < length (bits (vaddr_bitmap vb))"
  shows "\<exists>s'. get_a_page s pf vaddr = Inr (0, s') \<and> lock (pool_of s' pf) = Held"
proof (cases "pgdir (cur s) = 0")
  case True
  then have pf: "pf = PF_KERNEL" using dom by simp
  have acq: "pool_lock_acquire s PF_KERNEL = Inr (lock_taken s PF_KERNEL)"
    using free pf by (intro pool_lock_acquire_taken) simp
  show ?thesis
    using True idx full vb
    by (simp add: get_a_page_def pf acq Let_def bitmap_set_ok lock_taken_def pool_update_def
          palloc_def)
next
  case False
  then have pf: "pf = PF_USER" using dom by simp
  have acq: "pool_lock_acquire s PF_USER = Inr (lock_taken s PF_USER)"
    using free pf by (intro pool_lock_acquire_taken) simp
  show ?thesis
    using False idx full vb
    by (simp add: get_a_page_def pf acq Let_def bitmap_set_ok lock_taken_def pool_update_def
          palloc_def)
qed

lemma get_a_page_without_opvaddrbitmap_null_releases:
  assumes free: "lock (pool_of s pf) = Free"
    and full: "bitmap_scan (pool_bitmap (pool_of s pf)) 1 = None"
  shows "\<exists>s'. get_a_page_without_opvaddrbitmap s pf vaddr = Inr (0, s') \<and>
              lock (pool_of s' pf) = Free"
  using assms
  by (cases pf)
    (simp_all add: get_a_page_without_opvaddrbitmap_def pool_lock_acquire_free palloc_def
       pool_lock_release_def lock_release_def pool_update_def)

lemma scan_kernel_pool_full:
  "bitmap_scan (pool_bitmap (pool_of kernel_pool_full PF_KERNEL)) 1 = None"
  by (simp add: kernel_pool_full_def bitmap_scan_def run_free_def upt_rec find_None_iff
      numeral_eq_Suc)

theorem get_a_page_null_keeps_lock_witness:
  "\<exists>s'. get_a_page kernel_pool_full PF_KERNEL 0xc0101000 = Inr (0, s') \<and>
        lock (pool_of s' PF_KERNEL) = Held"
  using get_a_page_null_keeps_lock [where s = kernel_pool_full and pf = PF_KERNEL
      and vaddr = "0xc0101000" and vb = "kernel_vaddr kernel_pool_full"]
    scan_kernel_pool_full
  by (simp add: kernel_pool_full_def boot_state_def PG_SIZE_def)

lemma lock_pool_lock_release [simp]:
  "lock (pool_of (pool_lock_release s pf) pf) = Free"
  "lock (kernel_pool (pool_lock_release s PF_KERNEL)) = Free"
  "lock (user_pool (pool_lock_release s PF_USER)) = Free"
  by (cases pf) (simp_all add: pool_lock_release_def lock_release_def pool_update_def)

lemma bindE_Inr_iff: "bindE m f = Inr y \<longleftrightarrow> (\<exists>x. m = Inr x \<and> f x = Inr y)"
  by (cases m) simp_all

lemma get_kernel_pages_releases:
  "get_kernel_pages s n = Inr (v, s') \<Longrightarrow> lock (kernel_pool s') = Free"
  by (auto simp: get_kernel_pages_def bindE_Inr_iff Let_def)

lemma get_user_pages_releases:
  "get_user_pages s n = Inr (v, s') \<Longrightarrow> lock (user_pool s') = Free"
  by (auto simp: get_user_pages_def bindE_Inr_iff Let_def)

lemma get_a_page_without_opvaddrbitmap_releases:
  "get_a_page_without_opvaddrbitmap s pf vaddr = Inr (v, s') \<Longrightarrow> lock (pool_of s' pf) = Free"
  by (auto simp: get_a_page_without_opvaddrbitmap_def bindE_Inr_iff split: if_splits)

lemma sys_free_releases:
  "sys_free s ptr = Inr s' \<Longrightarrow>
     lock (pool_of s' (if pgdir (cur s) = 0 then PF_KERNEL else PF_USER)) = Free"
  by (auto simp: sys_free_def bindE_Inr_iff Let_def split: if_splits)

lemma sys_malloc_large_releases:
  "sys_malloc_large s pf sz = Inr (p, s') \<Longrightarrow> lock (pool_of s' pf) = Free"
  by (auto simp: sys_malloc_large_def bindE_Inr_iff Let_def split: if_splits)

lemma sys_malloc_block_releases:
  "sys_malloc_block s pf i = Inr (p, s') \<Longrightarrow> lock (pool_of s' pf) = Free"
  by (auto simp: sys_malloc_block_def bindE_Inr_iff Let_def split: if_splits)

lemma sys_malloc_releases:
  assumes "sys_malloc s sz = Inr (p, s')"
    and "lock (pool_of s (if pgdir (cur s) = 0 then PF_KERNEL else PF_USER)) = Free"
  shows "lock (pool_of s' (if pgdir (cur s) = 0 then PF_KERNEL else PF_USER)) = Free"
  using assms
  by (auto simp: sys_malloc_def Let_def bindE_Inr_iff sys_malloc_small_def
        dest: sys_malloc_large_releases sys_malloc_block_releases split: if_splits)

subsection \<open>The size guard of sys_malloc\<close>

text \<open>
  C4, as the code has it. A request of size 0, or of at least the \<open>pool_size\<close> of the
  caller's pool, returns NULL and leaves the whole state as it was: no lock is taken and
  no bitmap, free list, arena or page table is touched. The converse does not hold.
\<close>

theorem sys_malloc_size_guard:
  "sz = 0 \<or> pool_size (pool_of s (if pgdir (cur s) = 0 then PF_KERNEL else PF_USER)) \<le> sz
     \<Longrightarrow> sys_malloc s sz = Inr (0, s)"
  by (auto simp: sys_malloc_def Let_def not_less)

theorem sys_malloc_size_guard_witness:
  "sys_malloc kernel_pool_full 0 = Inr (0, kernel_pool_full) \<and>
   pool_size (pool_of kernel_pool_full PF_KERNEL) \<le> 0x8000 \<and>
   sys_malloc kernel_pool_full 0x8000 = Inr (0, kernel_pool_full)"
  using sys_malloc_size_guard [of 0 kernel_pool_full]
    sys_malloc_size_guard [of "0x8000" kernel_pool_full]
  by (simp add: kernel_pool_full_def boot_state_def)

lemma scan_kernel_vaddr_full_state:
  "bitmap_scan (vaddr_bitmap (kernel_vaddr (lock_taken kernel_pool_full PF_KERNEL))) (Suc 0) = Some 0"
  by (simp add: kernel_pool_full_def bitmap_scan_def run_free_def upt_rec lock_taken_def pool_update_def)

lemma sys_malloc_kernel_pool_full:
  "returned (sys_malloc kernel_pool_full 100) = Some 0"
proof -
  have d: "sys_malloc kernel_pool_full 100
     = sys_malloc_block (lock_taken kernel_pool_full PF_KERNEL) PF_KERNEL 3"
    using sys_malloc_size_class [where s = kernel_pool_full and pf = PF_KERNEL and sz = 100]
    by (simp add: kernel_pool_full_def boot_state_def descs_of_def block_desc_init_sizes)
  have g: "get_desc (lock_taken kernel_pool_full PF_KERNEL) (KDesc 3)
             = Inr \<lparr>block_size = 128, blocks_per_arena = 31, free_list = []\<rparr>"
    by (simp add: get_desc_def lock_taken_def pool_update_def kernel_pool_full_def)
       code_simp
  have v: "vaddr_get (lock_taken kernel_pool_full PF_KERNEL) PF_KERNEL 1 =
        Inr (0xc0100000, (lock_taken kernel_pool_full PF_KERNEL)
          \<lparr>kernel_vaddr := (kernel_vaddr kernel_pool_full)
              \<lparr>vaddr_bitmap := (vaddr_bitmap (kernel_vaddr kernel_pool_full))
                 \<lparr>bits := True # replicate 7 False\<rparr>\<rparr>\<rparr>)"
    by (simp add: vaddr_get_def scan_kernel_vaddr_full_state bitmap_set_ok)
      (simp add: lock_taken_def pool_update_def kernel_pool_full_def PG_SIZE_def bitmap_set_def
        numeral_eq_Suc)
  have m: "returned (malloc_page (lock_taken kernel_pool_full PF_KERNEL) PF_KERNEL 1) = Some 0"
    using scan_kernel_pool_full
    by (simp add: malloc_page_def v)
      (simp add: palloc_def lock_taken_def pool_update_def)
  show ?thesis
    unfolding d using m
    by (auto simp: sys_malloc_block_def desc_ref_of_def g Let_def list_empty_def arena_create_def
          returned_def bindE_def split: sum.splits)
qed

text \<open>A request of 100 bytes, within the size guard, returns NULL when the kernel pool
  has no free frame.\<close>

theorem sys_malloc_null_in_range:
  "returned (sys_malloc kernel_pool_full 100) = Some 0 \<and>
   \<not> ((100::u32) = 0 \<or> pool_size (pool_of kernel_pool_full PF_KERNEL) \<le> 100) \<and>
   pgdir (cur kernel_pool_full) = 0"
  by (simp add: sys_malloc_kernel_pool_full) (simp add: kernel_pool_full_def boot_state_def)

subsection \<open>The assertions of mfree_page\<close>

lemma and_not_present_frame: "((x::u32) AND - 2) AND 0xfffff000 = x AND 0xfffff000"
proof -
  have "(- 2 :: u32) AND 0xfffff000 = 0xfffff000" by simp
  then show ?thesis by (simp add: and.assoc)
qed

lemma addr_v2p_pte_remove [simp]:
  "addr_v2p (page_table_pte_remove s v) v' = addr_v2p s v'"
  by (simp add: addr_v2p_def page_table_pte_remove_def PG_P_1_def and_not_present_frame)

lemma pfree_cases:
  "pfree s pa = Inl Undefined \<or>
   (\<exists>s1. pfree s pa = Inr s1 \<and> mem s1 = mem s \<and>
      phy_addr_start (user_pool s1) = phy_addr_start (user_pool s) \<and>
      phy_addr_start (kernel_pool s1) = phy_addr_start (kernel_pool s))"
  by (auto simp: pfree_def bitmap_set_def)


lemma pool_starts_pte_remove [simp]:
  "user_pool (page_table_pte_remove s v) = user_pool s"
  "kernel_pool (page_table_pte_remove s v) = kernel_pool s"
  by (simp_all add: page_table_pte_remove_def)

lemma mfree_page_loop_reserved:
  assumes "0x102000 \<le> phy_addr_start (kernel_pool s)" "0x102000 \<le> phy_addr_start (user_pool s)"
    and "i < n" and "addr_v2p s (vaddr + of_nat i * PG_SIZE) < 0x102000"
  shows "mfree_page_loop s upool vaddr n = Inl AssertFail \<or>
         mfree_page_loop s upool vaddr n = Inl Undefined"
  using assms
proof (induction n arbitrary: s vaddr i)
  case 0
  then show ?case by simp
next
  case (Suc n)
  let ?pa = "addr_v2p s vaddr"
  let ?ok = "?pa mod PG_SIZE = 0 \<and>
                (if upool then ?pa \<ge> phy_addr_start (user_pool s)
                 else ?pa \<ge> phy_addr_start (kernel_pool s) \<and>
                      ?pa < phy_addr_start (user_pool s))"
  show ?case
  proof (cases ?ok)
    case False
    then show ?thesis by (auto simp: Let_def ASSERT_def split: if_splits)
  next
    case True
    then have ge: "0x102000 \<le> ?pa"
      using Suc.prems(1,2) by (auto split: if_splits)
    have "i \<noteq> 0"
    proof
      assume "i = 0"
      with Suc.prems(4) have "?pa < 0x102000" by simp
      with ge show False by simp
    qed
    then obtain j where j: "i = Suc j" by (cases i) auto
    from pfree_cases [of s ?pa] show ?thesis
    proof
      assume "pfree s ?pa = Inl Undefined"
      then show ?thesis using True by (cases upool) (simp_all add: Let_def)
    next
      assume "\<exists>s1. pfree s ?pa = Inr s1 \<and> mem s1 = mem s \<and>
        phy_addr_start (user_pool s1) = phy_addr_start (user_pool s) \<and>
        phy_addr_start (kernel_pool s1) = phy_addr_start (kernel_pool s)"
      then obtain s1 where s1: "pfree s ?pa = Inr s1" "mem s1 = mem s"
        "phy_addr_start (user_pool s1) = phy_addr_start (user_pool s)"
        "phy_addr_start (kernel_pool s1) = phy_addr_start (kernel_pool s)" by blast
      let ?s2 = "page_table_pte_remove s1 vaddr"
      have same: "addr_v2p s1 x = addr_v2p s x" for x
        using s1(2) by (simp add: addr_v2p_def)
      have "vaddr + PG_SIZE + of_nat j * PG_SIZE = vaddr + of_nat i * PG_SIZE"
        by (simp add: j algebra_simps)
      then have bad: "addr_v2p ?s2 (vaddr + PG_SIZE + of_nat j * PG_SIZE) < 0x102000"
        using Suc.prems(4) by (simp only: addr_v2p_pte_remove same)
      have "mfree_page_loop ?s2 upool (vaddr + PG_SIZE) n = Inl AssertFail \<or>
            mfree_page_loop ?s2 upool (vaddr + PG_SIZE) n = Inl Undefined"
        using Suc.prems(1,2,3) s1(3,4) bad
        by (intro Suc.IH [where i = j]) (simp_all add: j)
      then show ?thesis using True s1(1) by (cases upool) (simp_all add: Let_def)
    qed
  qed
qed

lemma mem_init_pool_starts:
  "0x102000 \<le> phy_addr_start (kernel_pool (mem_init s))"
  "0x102000 \<le> phy_addr_start (user_pool (mem_init s))"
  by (simp_all add: mem_init_pools kernel_pool_start word_le_nat_alt user_pool_start_unat)

lemma mfree_page_loop_step_asserts:
  assumes "0x102000 \<le> phy_addr_start (kernel_pool s)" "0x102000 \<le> phy_addr_start (user_pool s)"
    and "addr_v2p s vaddr < 0x102000"
  shows "mfree_page_loop s upool vaddr (Suc n) = Inl AssertFail"
proof -
  have k: "\<not> phy_addr_start (kernel_pool s) \<le> addr_v2p s vaddr"
    using assms(1,3) by simp
  have u: "\<not> phy_addr_start (user_pool s) \<le> addr_v2p s vaddr"
    using assms(2,3) by simp
  show ?thesis
    using k u by (cases upool) (simp_all add: Let_def)
qed

lemma bindE_assoc: "bindE (bindE m f) g = bindE m (\<lambda>x. bindE (f x) g)"
  by (cases m) simp_all

lemma mfree_page_loop_split:
  "mfree_page_loop s upool v (k + m) =
     bindE (mfree_page_loop s upool v k)
       (\<lambda>s'. mfree_page_loop s' upool (v + of_nat k * PG_SIZE) m)"
proof (induction k arbitrary: s v)
  case 0
  show ?case by simp
next
  case (Suc k)
  have v: "v + PG_SIZE + of_nat k * PG_SIZE = v + of_nat (Suc k) * PG_SIZE"
    by (simp add: algebra_simps)
  show ?case
    by (simp add: Let_def bindE_assoc Suc.IH v del: of_nat_Suc)
qed

lemma mfree_page_loop_preserves:
  assumes "mfree_page_loop s upool v k = Inr sk"
  shows "addr_v2p sk x = addr_v2p s x \<and>
         phy_addr_start (user_pool sk) = phy_addr_start (user_pool s) \<and>
         phy_addr_start (kernel_pool sk) = phy_addr_start (kernel_pool s)"
  using assms
proof (induction k arbitrary: s v)
  case 0
  then show ?case by simp
next
  case (Suc k)
  let ?pa = "addr_v2p s v"
  from Suc.prems obtain s1 where
    f: "pfree s ?pa = Inr s1" and
    l: "mfree_page_loop (page_table_pte_remove s1 v) upool (v + PG_SIZE) k = Inr sk"
    by (auto simp: Let_def bindE_Inr_iff)
  from pfree_cases [of s ?pa] f have
    s1: "mem s1 = mem s" "phy_addr_start (user_pool s1) = phy_addr_start (user_pool s)"
      "phy_addr_start (kernel_pool s1) = phy_addr_start (kernel_pool s)"
    by auto
  have same: "addr_v2p s1 x = addr_v2p s x"
    using s1(1) by (simp add: addr_v2p_def)
  from Suc.IH [OF l] same s1 show ?case by simp
qed

lemma mfree_page_loop_frame_asserted:
  assumes p: "0x102000 \<le> phy_addr_start (kernel_pool s)"
             "0x102000 \<le> phy_addr_start (user_pool s)"
    and k: "k < n" and first: "\<not> isl (mfree_page_loop s upool v k)"
    and bad: "addr_v2p s (v + of_nat k * PG_SIZE) < 0x102000"
  shows "mfree_page_loop s upool v n = Inl AssertFail"
proof -
  from first obtain sk where sk: "mfree_page_loop s upool v k = Inr sk"
    by (cases "mfree_page_loop s upool v k") auto
  from k obtain m where n: "n = k + Suc m"
    by (metis less_imp_Suc_add add_Suc_right)
  note pr = mfree_page_loop_preserves [OF sk]
  have "mfree_page_loop sk upool (v + of_nat k * PG_SIZE) (Suc m) = Inl AssertFail"
    using p bad pr by (intro mfree_page_loop_step_asserts) simp_all
  then show ?thesis
    unfolding n mfree_page_loop_split sk by simp
qed

text \<open>
  C8. With both pools starting at or above 0x102000, as \<^verbatim>\<open>mem_init\<close> places them,
  \<^verbatim>\<open>mfree_page\<close> ends in an assertion failure when \<open>pg_cnt < 1\<close>, when \<open>vaddr\<close> is not
  page-aligned, or when the first frame lies below 0x102000 (which covers the first
  1 MiB plus 2 KiB). Every step of its loop asserts the frame it is about to free: a
  step whose frame lies below 0x102000 ends in an assertion failure before anything is
  freed, so the call ends in an assertion failure when the frames before frame \<open>k\<close>
  have been freed and frame \<open>k\<close> lies below 0x102000, and a call that returns has freed
  frames at or above 0x102000 only.
\<close>

theorem mfree_page_asserts:
  assumes "0x102000 \<le> phy_addr_start (kernel_pool s)" "0x102000 \<le> phy_addr_start (user_pool s)"
  shows "(pg_cnt < 1 \<or> vaddr mod PG_SIZE \<noteq> 0 \<longrightarrow>
            mfree_page s pf vaddr pg_cnt = Inl AssertFail) \<and>
         (addr_v2p s vaddr < 0x102000 \<longrightarrow> mfree_page s pf vaddr pg_cnt = Inl AssertFail) \<and>
         (addr_v2p s vaddr < 0x102000 \<longrightarrow>
            mfree_page_loop s upool vaddr (Suc n) = Inl AssertFail) \<and>
         (k < unat pg_cnt \<and>
          \<not> isl (mfree_page_loop s (phy_addr_start (user_pool s) \<le> addr_v2p s vaddr) vaddr k) \<and>
          addr_v2p s (vaddr + of_nat k * PG_SIZE) < 0x102000 \<longrightarrow>
            mfree_page s pf vaddr pg_cnt = Inl AssertFail) \<and>
         (\<not> isl (mfree_page s pf vaddr pg_cnt) \<longrightarrow>
            (\<forall>i < unat pg_cnt. 0x102000 \<le> addr_v2p s (vaddr + of_nat i * PG_SIZE)))"
proof -
  let ?u = "phy_addr_start (user_pool s) \<le> addr_v2p s vaddr"
  have a: "mfree_page s pf vaddr pg_cnt = Inl AssertFail"
    if "pg_cnt < 1 \<or> vaddr mod PG_SIZE \<noteq> 0"
    using that by (auto simp: mfree_page_def ASSERT_def not_le [symmetric])
  have b: "mfree_page s pf vaddr pg_cnt = Inl AssertFail" if "addr_v2p s vaddr < 0x102000"
    using that by (cases "pg_cnt \<ge> 1 \<and> vaddr mod PG_SIZE = 0")
      (auto simp: mfree_page_def Let_def ASSERT_def not_le [symmetric])
  have c: "mfree_page_loop s upool vaddr (Suc n) = Inl AssertFail"
    if "addr_v2p s vaddr < 0x102000"
    using assms that by (rule mfree_page_loop_step_asserts)
  have d: "mfree_page s pf vaddr pg_cnt = Inl AssertFail"
    if h: "k < unat pg_cnt \<and> \<not> isl (mfree_page_loop s ?u vaddr k) \<and>
           addr_v2p s (vaddr + of_nat k * PG_SIZE) < 0x102000"
  proof -
    have l: "mfree_page_loop s ?u vaddr (unat pg_cnt) = Inl AssertFail"
      using assms h by (intro mfree_page_loop_frame_asserted [where k = k]) simp_all
    show ?thesis
    proof (cases "pg_cnt \<ge> 1 \<and> vaddr mod PG_SIZE = 0 \<and> addr_v2p s vaddr mod PG_SIZE = 0 \<and>
                  addr_v2p s vaddr \<ge> 0x102000")
      case True
      with l show ?thesis by (simp add: mfree_page_def Let_def)
    next
      case False
      then show ?thesis by (auto simp: mfree_page_def Let_def ASSERT_def)
    qed
  qed
  have e: "\<forall>i < unat pg_cnt. 0x102000 \<le> addr_v2p s (vaddr + of_nat i * PG_SIZE)"
    if r: "\<not> isl (mfree_page s pf vaddr pg_cnt)"
  proof (intro allI impI)
    fix i assume i: "i < unat pg_cnt"
    show "0x102000 \<le> addr_v2p s (vaddr + of_nat i * PG_SIZE)"
    proof (rule ccontr)
      assume "\<not> 0x102000 \<le> addr_v2p s (vaddr + of_nat i * PG_SIZE)"
      then have bad: "addr_v2p s (vaddr + of_nat i * PG_SIZE) < 0x102000" by simp
      have l: "mfree_page_loop s ?u vaddr (unat pg_cnt) = Inl AssertFail \<or>
               mfree_page_loop s ?u vaddr (unat pg_cnt) = Inl Undefined"
        using assms i bad by (rule mfree_page_loop_reserved)
      have "isl (mfree_page s pf vaddr pg_cnt)"
      proof (cases "pg_cnt \<ge> 1 \<and> vaddr mod PG_SIZE = 0 \<and> addr_v2p s vaddr mod PG_SIZE = 0 \<and>
                  addr_v2p s vaddr \<ge> 0x102000")
        case True
        with l show ?thesis by (auto simp: mfree_page_def Let_def)
      next
        case False
        then show ?thesis by (auto simp: mfree_page_def Let_def ASSERT_def)
      qed
      with r show False by simp
    qed
  qed
  show ?thesis using a b c d e by blast
qed

lemma pte_ptr_heap_pages:
  "pte_ptr 0xc0100000 = 0xfff00400" "pte_ptr 0xc0101000 = 0xfff00404"
  by (simp_all add: pte_ptr_def PTE_IDX_def)

lemma frames_mapped_v2p:
  "addr_v2p frames_mapped 0xc0100000 = 0x200000"
  "addr_v2p frames_mapped 0xc0101000 = 0x50000"
  by (simp_all add: addr_v2p_def pte_ptr_heap_pages frames_mapped_def)

lemma mfree_page_frames_mapped_1:
  "\<not> isl (mfree_page frames_mapped PF_KERNEL 0xc0100000 1)"
  by code_simp

lemma mfree_page_loop_frames_mapped_1:
  "\<not> isl (mfree_page_loop frames_mapped False 0xc0100000 1)"
  by code_simp

theorem mfree_page_asserts_witness:
  "0x102000 \<le> phy_addr_start (kernel_pool frames_mapped) \<and>
   0x102000 \<le> phy_addr_start (user_pool frames_mapped) \<and>
   mfree_page frames_mapped PF_KERNEL 0xc0100000 0 = Inl AssertFail \<and>
   mfree_page frames_mapped PF_KERNEL 0xc0100004 1 = Inl AssertFail \<and>
   addr_v2p frames_mapped 0xc0101000 < 0x102000 \<and>
   mfree_page frames_mapped PF_KERNEL 0xc0101000 1 = Inl AssertFail \<and>
   mfree_page_loop frames_mapped False 0xc0101000 (Suc 0) = Inl AssertFail \<and>
   (1::nat) < unat (2::u32) \<and>
   \<not> isl (mfree_page_loop frames_mapped
            (phy_addr_start (user_pool frames_mapped) \<le> addr_v2p frames_mapped 0xc0100000)
            0xc0100000 1) \<and>
   addr_v2p frames_mapped (0xc0100000 + of_nat 1 * PG_SIZE) < 0x102000 \<and>
   mfree_page frames_mapped PF_KERNEL 0xc0100000 2 = Inl AssertFail \<and>
   \<not> isl (mfree_page frames_mapped PF_KERNEL 0xc0100000 1) \<and>
   0x102000 \<le> addr_v2p frames_mapped (0xc0100000 + of_nat 0 * PG_SIZE)"
proof -
  have p: "0x102000 \<le> phy_addr_start (kernel_pool frames_mapped)"
    "0x102000 \<le> phy_addr_start (user_pool frames_mapped)"
    by (simp_all add: frames_mapped_def)
  have u: "(phy_addr_start (user_pool frames_mapped) \<le> addr_v2p frames_mapped 0xc0100000)
             = False"
    by (simp add: frames_mapped_v2p) (simp add: frames_mapped_def)
  have v: "(0xc0100000::u32) + of_nat 1 * PG_SIZE = 0xc0101000"
    "(0xc0100000::u32) + of_nat 0 * PG_SIZE = 0xc0100000"
    by (simp_all add: PG_SIZE_def)
  have bad: "addr_v2p frames_mapped 0xc0101000 < 0x102000"
    by (simp add: frames_mapped_v2p)
  have bad': "addr_v2p frames_mapped (0xc0100000 + of_nat 1 * PG_SIZE) < 0x102000"
    unfolding v by (rule bad)
  have one: "(1::nat) < unat (2::u32)" by simp
  have first: "\<not> isl (mfree_page_loop frames_mapped
            (phy_addr_start (user_pool frames_mapped) \<le> addr_v2p frames_mapped 0xc0100000)
            0xc0100000 1)"
    unfolding u by (rule mfree_page_loop_frames_mapped_1)
  have c1: "mfree_page frames_mapped PF_KERNEL 0xc0100000 0 = Inl AssertFail"
    using mfree_page_asserts [OF p, where pf = PF_KERNEL and vaddr = "0xc0100000"
          and pg_cnt = 0, THEN conjunct1]
    by simp
  have c2: "mfree_page frames_mapped PF_KERNEL 0xc0100004 1 = Inl AssertFail"
    using mfree_page_asserts [OF p, where pf = PF_KERNEL and vaddr = "0xc0100004"
          and pg_cnt = 1, THEN conjunct1]
    by (simp add: PG_SIZE_def)
  have c3: "mfree_page frames_mapped PF_KERNEL 0xc0101000 1 = Inl AssertFail"
    using mfree_page_asserts [OF p, where pf = PF_KERNEL and vaddr = "0xc0101000"
          and pg_cnt = 1, THEN conjunct2, THEN conjunct1] bad
    by (rule mp)
  have c4: "mfree_page_loop frames_mapped False 0xc0101000 (Suc 0) = Inl AssertFail"
    using mfree_page_asserts [OF p, where vaddr = "0xc0101000" and upool = False and n = 0,
          THEN conjunct2, THEN conjunct2, THEN conjunct1] bad
    by (rule mp)
  have c5: "mfree_page frames_mapped PF_KERNEL 0xc0100000 2 = Inl AssertFail"
    using mfree_page_asserts [OF p, where pf = PF_KERNEL and vaddr = "0xc0100000"
          and pg_cnt = 2 and k = 1,
          THEN conjunct2, THEN conjunct2, THEN conjunct2, THEN conjunct1]
      one first bad'
    by blast
  have c6: "0x102000 \<le> addr_v2p frames_mapped (0xc0100000 + of_nat 0 * PG_SIZE)"
    using mfree_page_asserts [OF p, where pf = PF_KERNEL and vaddr = "0xc0100000"
          and pg_cnt = 1,
          THEN conjunct2, THEN conjunct2, THEN conjunct2, THEN conjunct2]
      mfree_page_frames_mapped_1
    by simp
  show ?thesis
    using p c1 c2 bad c3 c4 one first bad' c5 mfree_page_frames_mapped_1 c6
    by blast
qed

subsection \<open>What the page allocator leaves alone\<close>

lemma pool_update_frame [simp]:
  "kernel_vaddr (pool_update s pf p) = kernel_vaddr s"
  "cur (pool_update s pf p) = cur s"
  "k_block_descs (pool_update s pf p) = k_block_descs s"
  "mem (pool_update s pf p) = mem s"
  "arenas (pool_update s pf p) = arenas s"
  "intr (pool_update s pf p) = intr s"
  by (simp_all add: pool_update_def)

lemma memset_zero_frame [simp]:
  "kernel_vaddr (memset_zero s a n) = kernel_vaddr s"
  "cur (memset_zero s a n) = cur s"
  "k_block_descs (memset_zero s a n) = k_block_descs s"
  "kernel_pool (memset_zero s a n) = kernel_pool s"
  "user_pool (memset_zero s a n) = user_pool s"
  "intr (memset_zero s a n) = intr s"
  by (simp_all add: memset_zero_def)

lemma pool_lock_release_frame [simp]:
  "kernel_vaddr (pool_lock_release s pf) = kernel_vaddr s"
  "cur (pool_lock_release s pf) = cur s"
  "k_block_descs (pool_lock_release s pf) = k_block_descs s"
  "mem (pool_lock_release s pf) = mem s"
  "arenas (pool_lock_release s pf) = arenas s"
  "intr (pool_lock_release s pf) = intr s"
  by (simp_all add: pool_lock_release_def)

lemma lock_taken_frame [simp]:
  "kernel_vaddr (lock_taken s pf) = kernel_vaddr s"
  "cur (lock_taken s pf) = cur s"
  "k_block_descs (lock_taken s pf) = k_block_descs s"
  "mem (lock_taken s pf) = mem s"
  "arenas (lock_taken s pf) = arenas s"
  "intr (lock_taken s pf) = intr s"
  by (simp_all add: lock_taken_def)

lemma palloc_Inr: "\<exists>pa p'. palloc p = Inr (pa, p')"
  by (auto simp: palloc_def bitmap_set_def bitmap_scan_def find_Some_iff split: option.splits)

lemma page_table_add_frame:
  assumes "page_table_add s v pa = Inr s'"
  shows "kernel_vaddr s' = kernel_vaddr s" "cur s' = cur s" "k_block_descs s' = k_block_descs s"
    "user_pool s' = user_pool s" "intr s' = intr s"
  using assms
  by (auto simp: page_table_add_def Let_def bindE_Inr_iff split: if_splits)

lemma malloc_page_loop_frame:
  assumes "malloc_page_loop s pf v n = Inr (ok, s')"
  shows "kernel_vaddr s' = kernel_vaddr s \<and> cur s' = cur s \<and>
         k_block_descs s' = k_block_descs s \<and> intr s' = intr s"
  using assms
proof (induction n arbitrary: s v)
  case 0
  then show ?case by simp
next
  case (Suc n)
  obtain pa p' where p: "palloc (pool_of s pf) = Inr (pa, p')" using palloc_Inr by blast
  show ?case
  proof (cases "pa = 0")
    case True
    with Suc.prems p show ?thesis by auto
  next
    case False
    with Suc.prems p obtain s1 where
      a: "page_table_add (pool_update s pf p') v pa = Inr s1" and
      l: "malloc_page_loop s1 pf (v + PG_SIZE) n = Inr (ok, s')"
      by (auto simp: bindE_Inr_iff)
    from page_table_add_frame [OF a] Suc.IH [OF l] show ?thesis by simp
  qed
qed

subsection \<open>The virtual pool\<close>

lemma bitmap_set_range_set_bits:
  "i + n \<le> length (bits bm) \<Longrightarrow> bitmap_set_range bm i n v = Inr (set_bits bm i n v)"
  by (simp add: bitmap_set_range_ok set_bits_def)

lemma bitmap_scan_run_free:
  "bitmap_scan bm n = Some i \<Longrightarrow> run_free (bits bm) i n"
  by (auto simp: bitmap_scan_def find_Some_iff)

lemma vaddr_get_None:
  "bitmap_scan (vaddr_bitmap (vpool s pf)) (unat n) = None \<Longrightarrow> vaddr_get s pf n = Inr (0, s)"
  by (cases pf) (simp_all add: vaddr_get_def vpool_def)

lemma vaddr_get_Some:
  assumes "bitmap_scan (vaddr_bitmap (vpool s pf)) (unat n) = Some i"
  shows "vaddr_get s pf n =
     bindE (ASSERT (pf = PF_USER \<longrightarrow>
              vaddr_start (vpool s pf) + of_nat i * PG_SIZE < 0xc0000000 - PG_SIZE))
       (\<lambda>_. Inr (vaddr_start (vpool s pf) + of_nat i * PG_SIZE,
                  vpool_update s pf ((vpool s pf)\<lparr>vaddr_bitmap :=
                     set_bits (vaddr_bitmap (vpool s pf)) i (unat n) True\<rparr>)))"
proof -
  have "i + unat n \<le> length (bits (vaddr_bitmap (vpool s pf)))"
    using assms by (rule bitmap_scan_in_range)
  then show ?thesis
    using assms
    by (cases pf)
      (simp_all add: vaddr_get_def vpool_def vpool_update_def bitmap_set_range_set_bits Let_def)
qed

lemma vaddr_get_success:
  assumes "vaddr_get s pf n = Inr (a, s')" and "a \<noteq> 0"
  shows "\<exists>i. bitmap_scan (vaddr_bitmap (vpool s pf)) (unat n) = Some i \<and>
             a = vaddr_start (vpool s pf) + of_nat i * PG_SIZE \<and>
             s' = vpool_update s pf ((vpool s pf)\<lparr>vaddr_bitmap :=
                     set_bits (vaddr_bitmap (vpool s pf)) i (unat n) True\<rparr>)"
proof (cases "bitmap_scan (vaddr_bitmap (vpool s pf)) (unat n)")
  case None
  from vaddr_get_None [OF this] assms show ?thesis by simp
next
  case (Some i)
  let ?c = "pf = PF_USER \<longrightarrow>
              vaddr_start (vpool s pf) + of_nat i * PG_SIZE < 0xc0000000 - PG_SIZE"
  let ?base = "vaddr_start (vpool s pf) + of_nat i * PG_SIZE"
  let ?upd = "vpool_update s pf ((vpool s pf)\<lparr>vaddr_bitmap :=
                     set_bits (vaddr_bitmap (vpool s pf)) i (unat n) True\<rparr>)"
  have eq: "bindE (ASSERT ?c) (\<lambda>_. Inr (?base, ?upd)) = Inr (a, s')"
    using vaddr_get_Some [OF Some] assms(1) by (simp only:)
  have "?c"
  proof (rule ccontr)
    assume "\<not> ?c"
    then have "ASSERT ?c = Inl AssertFail" unfolding ASSERT_def by (rule if_not_P)
    with eq show False by simp
  qed
  then have "ASSERT ?c = Inr ()" unfolding ASSERT_def by (rule if_P)
  with eq have "Inr (?base, ?upd) = (Inr (a, s') :: (u32 \<times> kstate) res)" by simp
  then have "a = ?base" "s' = ?upd" by simp_all
  with Some show ?thesis by blast
qed

subsection \<open>The page count of a large request\<close>

lemma whole_pages_bound:
  assumes "(psize::u32) mod PG_SIZE = 0"
  shows "unat psize \<le> 2 ^ 32 - 4096"
proof -
  have "unat psize mod 4096 = 0"
    using assms by (simp add: PG_SIZE_def word_unat_eq_iff unat_mod)
  then obtain k where k: "unat psize = 4096 * k" by (auto simp: mod_eq_0_iff_dvd)
  have "unat psize < 2 ^ 32" using unsigned_less [of psize] by simp
  then have "k < 2 ^ 20" using k by simp
  then have "k \<le> 2 ^ 20 - 1" by simp
  then have "4096 * k \<le> 4096 * (2 ^ 20 - 1)" by (rule mult_le_mono2)
  then show ?thesis using k by simp
qed

lemma large_page_count:
  assumes lt: "sz < psize" and pg: "psize mod PG_SIZE = 0"
    and pos: "0 < DIV_ROUND_UP (sz + sizeof_arena) PG_SIZE"
  shows "unat (DIV_ROUND_UP (sz + sizeof_arena) PG_SIZE) = (unat sz + 12 + 4095) div 4096"
proof -
  have b: "unat sz < 2 ^ 32 - 4096"
    using lt whole_pages_bound [OF pg] by (simp add: word_less_nat_alt)
  have e: "DIV_ROUND_UP (sz + sizeof_arena) PG_SIZE = (sz + 4107) div 4096"
    unfolding DIV_ROUND_UP_def sizeof_arena_def PG_SIZE_def by (simp add: add.commute)
  have u: "unat ((sz + 4107) div 4096) = (unat sz + 4107) mod 2 ^ 32 div 4096"
    by (simp add: unat_div unat_word_ariths)
  have n: "unat sz + 12 + 4095 = unat sz + 4107" by simp
  have d: "unat (DIV_ROUND_UP (sz + sizeof_arena) PG_SIZE)
             = (unat sz + 12 + 4095) mod 2 ^ 32 div 4096"
    by (simp only: e u n)
  show ?thesis
  proof (cases "unat sz + 12 + 4095 < 2 ^ 32")
    case True
    then show ?thesis using d by simp
  next
    case False
    then have "(unat sz + 12 + 4095) mod 2 ^ 32 = unat sz + 12 + 4095 - 2 ^ 32"
      using b by (simp add: mod_if)
    then have "(unat sz + 12 + 4095) mod 2 ^ 32 < 4096" using b by simp
    then have "unat (DIV_ROUND_UP (sz + sizeof_arena) PG_SIZE) = 0" using d by simp
    then show ?thesis using pos by (simp add: unat_eq_0)
  qed
qed

subsection \<open>The large path of sys_malloc\<close>

lemma vpool_simps [simp]:
  "vpool (vpool_update s pf vb) pf = vb"
  "vpool (lock_taken s pf') pf = vpool s pf"
  "vpool (pool_lock_release s pf') pf = vpool s pf"
  "vpool (memset_zero s a n) pf = vpool s pf"
  "vpool (s\<lparr>arenas := ar\<rparr>) pf = vpool s pf"
  by (simp_all add: vpool_def vpool_update_def)

lemma malloc_page_loop_vpool:
  "malloc_page_loop s pf v n = Inr (ok, s') \<Longrightarrow> vpool s' pf' = vpool s pf'"
  by (drule malloc_page_loop_frame) (simp add: vpool_def)

lemma returned_Some_iff: "returned r = Some x \<longleftrightarrow> (\<exists>s. r = Inr (x, s))"
  by (cases r) (auto simp: returned_def)

lemma sys_malloc_success:
  assumes "sys_malloc s sz = Inr (p, s')" and "p \<noteq> 0"
    and "pf = (if pgdir (cur s) = 0 then PF_KERNEL else PF_USER)"
  shows "0 < sz" "sz < pool_size (pool_of s pf)" "lock (pool_of s pf) = Free"
    "(if sz > 1024 then sys_malloc_large (lock_taken s pf) pf sz
      else sys_malloc_small (lock_taken s pf) pf sz) = Inr (p, s')"
proof -
  have g: "0 < sz \<and> sz < pool_size (pool_of s pf)"
  proof (rule ccontr)
    assume "\<not> (0 < sz \<and> sz < pool_size (pool_of s pf))"
    then have "sys_malloc s sz = Inr (0, s)"
      unfolding sys_malloc_def Let_def assms(3) by (rule if_P)
    with assms(1,2) show False by simp
  qed
  then show "0 < sz" "sz < pool_size (pool_of s pf)" by simp_all
  show f: "lock (pool_of s pf) = Free"
  proof (rule ccontr)
    assume "lock (pool_of s pf) \<noteq> Free"
    then have "lock (pool_of s pf) = Held" by (cases "lock (pool_of s pf)") simp_all
    then have "pool_lock_acquire s pf = Inl Blocked"
      by (simp add: pool_lock_acquire_def lock_acquire_def)
    then have "sys_malloc s sz = Inl Blocked"
      using g unfolding sys_malloc_def Let_def assms(3) by simp
    with assms(1) show False by simp
  qed
  show "(if sz > 1024 then sys_malloc_large (lock_taken s pf) pf sz
      else sys_malloc_small (lock_taken s pf) pf sz) = Inr (p, s')"
    using sys_malloc_dispatch [OF assms(3) f] g assms(1) by simp
qed

lemma malloc_page_success:
  assumes "malloc_page s pf n = Inr (a, s2)" and "a \<noteq> 0"
  shows "0 < n \<and> n < 3840 \<and>
         (\<exists>s1. vaddr_get s pf n = Inr (a, s1) \<and>
               malloc_page_loop s1 pf a (unat n) = Inr (True, s2))"
proof -
  have c: "0 < n \<and> n < 3840"
  proof (rule ccontr)
    assume "\<not> (0 < n \<and> n < 3840)"
    then have "ASSERT (0 < n \<and> n < 3840) = Inl AssertFail"
      unfolding ASSERT_def by (rule if_not_P)
    then have "malloc_page s pf n = Inl AssertFail"
      unfolding malloc_page_def by simp
    with assms(1) show False by simp
  qed
  then have "ASSERT (0 < n \<and> n < 3840) = Inr ()" by (simp add: ASSERT_def)
  with assms(1) obtain v s1 where v: "vaddr_get s pf n = Inr (v, s1)"
    and r: "(if v = 0 then Inr (0, s1)
             else bindE (malloc_page_loop s1 pf v (unat n))
                    (\<lambda>(ok, s2). Inr (if ok then v else 0, s2))) = Inr (a, s2)"
    unfolding malloc_page_def by (auto simp: bindE_Inr_iff)
  have v0: "v \<noteq> 0" using r assms(2) by (auto split: if_splits)
  with r obtain ok s2' where l: "malloc_page_loop s1 pf v (unat n) = Inr (ok, s2')"
    and e: "Inr (if ok then v else 0, s2') = (Inr (a, s2) :: (u32 \<times> kstate) res)"
    by (auto simp: bindE_Inr_iff)
  from e assms(2) have "ok" "v = a" "s2' = s2" by (auto split: if_splits)
  with v l c show ?thesis by auto
qed

subsection \<open>Addresses of page table entries\<close>

lemma mask_0xfff: "(0xfff :: u32) = mask 12"
  by (simp add: mask_eq_exp_minus_1)
lemma mask_0xfffff000: "(0xfffff000 :: u32) = NOT (mask 12)"
  by (simp add: mask_eq_exp_minus_1)
lemma mask_0xffc00000: "(0xffc00000 :: u32) = NOT (mask 22)"
  by (simp add: mask_eq_exp_minus_1)
lemma mask_0x3ff: "(0x3ff :: u32) = mask 10"
  by (simp add: mask_eq_exp_minus_1)
lemma mask_0x3ff000: "(0x3ff000 :: u32) = push_bit 12 (mask 10)"
  by (simp add: mask_eq_exp_minus_1)

lemma pte_idx: "PTE_IDX v = take_bit 10 (drop_bit 12 v)"
  unfolding PTE_IDX_def mask_0x3ff000
  apply (rule bit_word_eqI)
  apply (auto simp add: bit_simps dest: bit_imp_le_length)
  done

lemma pde_part: "drop_bit 10 (v AND (0xffc00000::u32)) = push_bit 12 (drop_bit 22 v)"
  unfolding mask_0xffc00000
  apply (rule bit_word_eqI)
  apply (auto simp add: bit_simps dest: bit_imp_le_length)
  done

lemma pde_idx: "PDE_IDX v = drop_bit 22 v"
  unfolding PDE_IDX_def mask_0xffc00000
  apply (rule bit_word_eqI)
  apply (auto simp add: bit_simps dest: bit_imp_le_length)
  done

lemma pte_ptr_unat: "unat (pte_ptr v) = 0xffc00000 + 4 * (unat v div 4096)"
proof -
  let ?hi = "unat v div 4194304" and ?lo = "unat v div 4096 mod 1024"
  have hi: "unat (push_bit 12 (drop_bit 22 v) :: u32) = ?hi * 4096"
  proof -
    have "unat v < 2 ^ 32" using unsigned_less [of v] by simp
    then have "?hi < 1024" by simp
    then have "?hi * 4096 < 2 ^ 32" by simp
    then show ?thesis
      by (simp add: push_bit_eq_mult unat_word_ariths unat_drop_bit_eq drop_bit_eq_div)
  qed
  have lo: "unat (take_bit 10 (drop_bit 12 v) * 4 :: u32) = ?lo * 4"
  proof -
    have t: "unat (take_bit 10 (drop_bit 12 v) :: u32) = ?lo"
      by (simp add: take_bit_eq_mod drop_bit_eq_div unat_div unat_mod)
    have "?lo < 1024" by simp
    then have "?lo * 4 < 2 ^ 32" by simp
    then have "?lo * 4 mod 2 ^ 32 = ?lo * 4" by (rule mod_less)
    then show ?thesis
      by (simp only: unat_word_ariths t) simp
  qed
  have b1: "?hi * 4096 < 2 ^ 22"
  proof -
    have "unat v < 2 ^ 32" using unsigned_less [of v] by simp
    then have "?hi < 1024" by simp
    then show ?thesis by simp
  qed
  have b2: "?lo * 4 < 4096" by simp
  have s1: "unat ((0xffc00000::u32) + push_bit 12 (drop_bit 22 v)) = 0xffc00000 + ?hi * 4096"
    using b1 hi by (simp add: unat_word_ariths)
  have s2: "unat ((0xffc00000::u32) + push_bit 12 (drop_bit 22 v) + take_bit 10 (drop_bit 12 v) * 4)
              = 0xffc00000 + ?hi * 4096 + ?lo * 4"
    using b1 b2 s1 lo by (simp add: unat_word_ariths)
  have e: "?hi * 4096 + ?lo * 4 = 4 * (unat v div 4096)"
  proof -
    have "unat v div 4096 = 1024 * (unat v div 4096 div 1024) + unat v div 4096 mod 1024"
      by simp
    moreover have "unat v div 4096 div 1024 = ?hi" by (simp add: div_mult2_eq)
    ultimately show ?thesis by simp
  qed
  have p: "pte_ptr v = 0xffc00000 + push_bit 12 (drop_bit 22 v)
                         + take_bit 10 (drop_bit 12 v) * 4"
    by (simp only: pte_ptr_def pde_part pte_idx)
  show ?thesis
    unfolding p using s2 e by linarith
qed

lemma pde_ptr_unat: "unat (pde_ptr v) = 0xfffff000 + 4 * (unat v div 4194304)"
proof -
  have "unat v < 2 ^ 32" using unsigned_less [of v] by simp
  then have "unat v div 4194304 < 1024" by simp
  then have "unat v div 4194304 * 4 < 4096" by simp
  then show ?thesis
    by (simp add: pde_ptr_def pde_idx unat_word_ariths unat_drop_bit_eq drop_bit_eq_div)
qed

subsection \<open>The header and the pages of a large arena\<close>

lemma arena_all_fields:
  "r\<lparr>desc := d, cnt := c, large := l\<rparr> = \<lparr>desc = d, large = l, cnt = c\<rparr>"
  by (cases r) simp

lemma arena_set_frame [simp]:
  "kernel_pool (arena_set_desc s a d) = kernel_pool s"
  "user_pool (arena_set_desc s a d) = user_pool s"
  "kernel_vaddr (arena_set_desc s a d) = kernel_vaddr s"
  "cur (arena_set_desc s a d) = cur s"
  "k_block_descs (arena_set_desc s a d) = k_block_descs s"
  "intr (arena_set_desc s a d) = intr s"
  "kernel_pool (arena_set_large s a l) = kernel_pool s"
  "user_pool (arena_set_large s a l) = user_pool s"
  "kernel_vaddr (arena_set_large s a l) = kernel_vaddr s"
  "cur (arena_set_large s a l) = cur s"
  "k_block_descs (arena_set_large s a l) = k_block_descs s"
  "intr (arena_set_large s a l) = intr s"
  "kernel_pool (arena_set_cnt s a c) = kernel_pool s"
  "user_pool (arena_set_cnt s a c) = user_pool s"
  "kernel_vaddr (arena_set_cnt s a c) = kernel_vaddr s"
  "cur (arena_set_cnt s a c) = cur s"
  "k_block_descs (arena_set_cnt s a c) = k_block_descs s"
  "intr (arena_set_cnt s a c) = intr s"
  by (simp_all add: arena_set_desc_def arena_set_large_def arena_set_cnt_def)

lemma vpool_arena_set [simp]:
  "vpool (arena_set_desc s a d) pf = vpool s pf"
  "vpool (arena_set_large s a l) pf = vpool s pf"
  "vpool (arena_set_cnt s a c) pf = vpool s pf"
  by (simp_all add: vpool_def)

text \<open>The header of a large arena, in both views, after the three stores.\<close>

lemma large_header_stored:
  "arenas (arena_set_large (arena_set_cnt (arena_set_desc s a None) a c) a True) a
     = \<lparr>desc = None, large = True, cnt = c\<rparr>"
  "mem (arena_set_large (arena_set_cnt (arena_set_desc s a None) a c) a True) a = 0"
  "mem (arena_set_large (arena_set_cnt (arena_set_desc s a None) a c) a True) (a + 4) = 1"
  "mem (arena_set_large (arena_set_cnt (arena_set_desc s a None) a c) a True) (a + 8) = c"
  "x \<noteq> a \<Longrightarrow> x \<noteq> a + 4 \<Longrightarrow> x \<noteq> a + 8 \<Longrightarrow>
     mem (arena_set_large (arena_set_cnt (arena_set_desc s a None) a c) a True) x = mem s x"
  by (simp_all add: arena_set_desc_def arena_set_large_def arena_set_cnt_def
        arena_all_fields)

lemma sys_malloc_large_success:
  assumes "sys_malloc_large s1 pf sz = Inr (p, s')" and "p \<noteq> 0"
  shows "\<exists>a s2. malloc_page s1 pf (DIV_ROUND_UP (sz + sizeof_arena) PG_SIZE) = Inr (a, s2) \<and>
           a \<noteq> 0 \<and> p = a + sizeof_arena \<and>
           s' = pool_lock_release
                  (arena_set_large
                     (arena_set_cnt
                        (arena_set_desc
                           (memset_zero s2 a
                              (DIV_ROUND_UP (sz + sizeof_arena) PG_SIZE * PG_SIZE))
                           a None)
                        a (DIV_ROUND_UP (sz + sizeof_arena) PG_SIZE))
                     a True) pf"
  using assms
  by (auto simp: sys_malloc_large_def Let_def bindE_Inr_iff split: if_splits)

lemma mem_init_whole_pages:
  "pool_size (kernel_pool (mem_init s)) mod PG_SIZE = 0"
  "pool_size (user_pool (mem_init s)) mod PG_SIZE = 0"
  by (simp_all add: word_unat_eq_iff unat_mod mem_init_pools kernel_pool_size_unat
        user_pool_size_unat PG_SIZE_def)

text \<open>
  C6. A call of \<^verbatim>\<open>sys_malloc\<close> with \<open>sz > 1024\<close> that returns a non-null pointer \<open>p\<close>
  (the pool size being whole pages, as \<^verbatim>\<open>mem_init\<close> leaves it) has reserved exactly
  \<open>n = \<lceil>(sz + sizeof_arena) / 4096\<rceil>\<close> contiguous pages of the caller's virtual pool, which
  were free, starting at \<open>a = p - sizeof_arena\<close>; the arena header at \<open>a\<close> has no
  descriptor, the count \<open>n\<close> and \<open>large\<close> set, which in memory are the words 0 at \<open>a\<close>,
  1 at \<open>a + 4\<close> and \<open>n\<close> at \<open>a + 8\<close>; every other word of these pages is zero; and for
  2000 bytes \<open>n\<close> is 1.
\<close>

theorem sys_malloc_large_pages:
  assumes ok: "sys_malloc s sz = Inr (p, s')" and p: "p \<noteq> 0" and big: "1024 < sz"
    and pf: "pf = (if pgdir (cur s) = 0 then PF_KERNEL else PF_USER)"
    and whole: "pool_size (pool_of s pf) mod PG_SIZE = 0"
    and n: "n = (unat sz + unat sizeof_arena + 4095) div 4096"
    and a: "a = p - sizeof_arena"
  shows "p = a + sizeof_arena \<and>
     (\<exists>i. a = vaddr_start (vpool s pf) + of_nat i * PG_SIZE \<and>
          run_free (bits (vaddr_bitmap (vpool s pf))) i n \<and>
          vaddr_bitmap (vpool s' pf) = set_bits (vaddr_bitmap (vpool s pf)) i n True) \<and>
     (\<forall>x. x - a < of_nat n * PG_SIZE \<and> x \<noteq> a + 4 \<and> x \<noteq> a + 8 \<longrightarrow> mem s' x = 0) \<and>
     mem s' (a + 4) = 1 \<and> mem s' (a + 8) = of_nat n \<and>
     arenas s' a = \<lparr>desc = None, large = True, cnt = of_nat n\<rparr> \<and>
     (sz = 2000 \<longrightarrow> n = 1)"
proof -
  let ?pc = "DIV_ROUND_UP (sz + sizeof_arena) PG_SIZE"
  note s = sys_malloc_success [OF ok p pf]
  have l: "sys_malloc_large (lock_taken s pf) pf sz = Inr (p, s')"
    using s(4) big by simp
  from sys_malloc_large_success [OF l p] obtain a' s2 where
    mp: "malloc_page (lock_taken s pf) pf ?pc = Inr (a', s2)" and a0: "a' \<noteq> 0" and
    pa: "p = a' + sizeof_arena" and
    s': "s' = pool_lock_release
                  (arena_set_large
                     (arena_set_cnt
                        (arena_set_desc (memset_zero s2 a' (?pc * PG_SIZE)) a' None)
                        a' ?pc)
                     a' True) pf"
    by blast
  have aa: "a' = a" using pa a by simp
  from malloc_page_success [OF mp a0] obtain s1 where
    pc: "0 < ?pc" and vg: "vaddr_get (lock_taken s pf) pf ?pc = Inr (a', s1)" and
    lp: "malloc_page_loop s1 pf a' (unat ?pc) = Inr (True, s2)"
    by blast
  have cnt: "unat ?pc = n"
    using large_page_count [OF s(2) whole pc] n by (simp add: sizeof_arena_def)
  then have "of_nat (unat ?pc) = (of_nat n :: u32)" by simp
  then have pcn: "?pc = of_nat n" by simp
  from vaddr_get_success [OF vg a0] obtain i where
    sc: "bitmap_scan (vaddr_bitmap (vpool s pf)) (unat ?pc) = Some i" and
    ai: "a' = vaddr_start (vpool s pf) + of_nat i * PG_SIZE" and
    s1: "s1 = vpool_update (lock_taken s pf) pf ((vpool s pf)\<lparr>vaddr_bitmap :=
                     set_bits (vaddr_bitmap (vpool s pf)) i (unat ?pc) True\<rparr>)"
    by auto
  have rf: "run_free (bits (vaddr_bitmap (vpool s pf))) i n"
    using bitmap_scan_run_free [OF sc] cnt by simp
  have vb: "vaddr_bitmap (vpool s' pf) = set_bits (vaddr_bitmap (vpool s pf)) i n True"
    using malloc_page_loop_vpool [OF lp, of pf] by (simp add: s' s1 cnt)
  note hd = large_header_stored
              [where s = "memset_zero s2 a (of_nat n * PG_SIZE)" and a = a and c = "of_nat n"]
  have z: "\<forall>x. x - a < of_nat n * PG_SIZE \<and> x \<noteq> a + 4 \<and> x \<noteq> a + 8 \<longrightarrow> mem s' x = 0"
  proof (intro allI impI)
    fix x assume x: "x - a < of_nat n * PG_SIZE \<and> x \<noteq> a + 4 \<and> x \<noteq> a + 8"
    show "mem s' x = 0"
    proof (cases "x = a")
      case True
      then show ?thesis by (simp add: s' aa pcn hd(2))
    next
      case False
      then have "mem s' x = mem (memset_zero s2 a (of_nat n * PG_SIZE)) x"
        using x by (simp add: s' aa pcn hd(5))
      then show ?thesis using x by (simp add: memset_zero_def clear_range_def)
    qed
  qed
  have w: "mem s' (a + 4) = 1" "mem s' (a + 8) = of_nat n"
    by (simp_all add: s' aa pcn hd(3,4))
  have h: "arenas s' a = \<lparr>desc = None, large = True, cnt = of_nat n\<rparr>"
    by (simp add: s' aa pcn hd(1))
  have "n = 1" if "sz = 2000" using n that by (simp add: sizeof_arena_def)
  with pa aa ai rf vb z w h show ?thesis by blast
qed

lemma small_kernel_malloc_2000:
  "returned (sys_malloc small_kernel 2000) = Some 0xc010000c"
  by code_simp

lemma small_kernel_facts:
  "pgdir (cur small_kernel) = 0"
  "pool_size (pool_of small_kernel PF_KERNEL) mod PG_SIZE = 0"
  "vaddr_start (vpool small_kernel PF_KERNEL) = 0xc0100000"
  "bits (vaddr_bitmap (vpool small_kernel PF_KERNEL)) = replicate 32 False"
  by code_simp+

theorem sys_malloc_large_pages_witness:
  "\<exists>s'. sys_malloc small_kernel 2000 = Inr (0xc010000c, s') \<and>
     vaddr_bitmap (vpool s' PF_KERNEL)
       = set_bits (vaddr_bitmap (vpool small_kernel PF_KERNEL)) 0 1 True \<and>
     (\<forall>x. x - 0xc0100000 < of_nat 1 * PG_SIZE \<and> x \<noteq> 0xc0100000 + 4 \<and>
          x \<noteq> 0xc0100000 + 8 \<longrightarrow> mem s' x = 0) \<and>
     mem s' (0xc0100000 + 4) = 1 \<and> mem s' (0xc0100000 + 8) = 1 \<and>
     arenas s' 0xc0100000 = \<lparr>desc = None, large = True, cnt = 1\<rparr>"
proof -
  from small_kernel_malloc_2000 obtain s' where
    ok: "sys_malloc small_kernel 2000 = Inr (0xc010000c, s')"
    by (auto simp: returned_Some_iff)
  have n: "(1::nat) = (unat (2000::u32) + unat sizeof_arena + 4095) div 4096"
    by (simp add: sizeof_arena_def)
  have a: "(0xc0100000::u32) = 0xc010000c - sizeof_arena" by (simp add: sizeof_arena_def)
  have pf: "PF_KERNEL = (if pgdir (cur small_kernel) = 0 then PF_KERNEL else PF_USER)"
    by (simp add: small_kernel_facts)
  from sys_malloc_large_pages [OF ok _ _ pf small_kernel_facts(2) n a]
  obtain i where
    i: "(0xc0100000::u32) = vaddr_start (vpool small_kernel PF_KERNEL) + of_nat i * PG_SIZE"
       "vaddr_bitmap (vpool s' PF_KERNEL)
          = set_bits (vaddr_bitmap (vpool small_kernel PF_KERNEL)) i 1 True"
       "run_free (bits (vaddr_bitmap (vpool small_kernel PF_KERNEL))) i 1"
    and r: "\<forall>x. x - 0xc0100000 < of_nat 1 * PG_SIZE \<and> x \<noteq> 0xc0100000 + 4 \<and>
               x \<noteq> 0xc0100000 + 8 \<longrightarrow> mem s' x = 0"
       "mem s' (0xc0100000 + 4) = 1" "mem s' (0xc0100000 + 8) = of_nat 1"
       "arenas s' 0xc0100000 = \<lparr>desc = None, large = True, cnt = of_nat 1\<rparr>"
    by auto
  have "i < 32" using i(3) by (simp add: run_free_def small_kernel_facts)
  moreover have "(of_nat i :: u32) * 4096 = 0" using i(1) by (simp add: small_kernel_facts PG_SIZE_def)
  ultimately have "i = 0"
    by (simp add: word_unat_eq_iff unat_word_ariths unat_of_nat)
  with ok i r show ?thesis by auto
qed

end
